theory Spec2Isabelle
  imports Complex_Main
begin

section \<open>JavaScript numbers\<close>

text \<open>
  The campaign controller works on JavaScript numbers, which are IEEE 754 binary64
  values. A number is modelled as a finite value (a rational), one of the two infinities,
  or NaN. Every arithmetic result is rounded as the machine rounds it: to the nearest
  value with a 53-bit significand, ties to the even significand, with gradual underflow
  below \<open>2^-1022\<close> and overflow to an infinity from \<open>2^1024\<close>. The sign of zero is not
  modelled (\<open>-0\<close> compares and adds like \<open>0\<close>, and the code never divides by a zero).
\<close>

datatype jsnum = Finite rat | PosInfinity | NegInfinity | NaN

text \<open>Rounding to the nearest integer, a tie going to the even one.\<close>

definition round_half_even :: "rat \<Rightarrow> int" where
  "round_half_even x =
     (let f = \<lfloor>x\<rfloor>; r = x - of_int f
      in if r < 1 / 2 then f else if 1 / 2 < r then f + 1 else if even f then f else f + 1)"

text \<open>
  The binary exponent of a magnitude: the greatest \<open>e\<close> in \<open>-1022..1023\<close> with
  \<open>2^e \<le> a\<close>, and \<open>-1022\<close> for the subnormal magnitudes below all of them.
\<close>

definition double_exponent :: "rat \<Rightarrow> int" where
  "double_exponent a = Max (insert (- 1022) {e \<in> {- 1022..1023}. 2 powi e \<le> a})"

text \<open>
  The double nearest to a rational: the magnitude is rounded to a multiple of the unit in
  the last place of its binade, \<open>2^(e - 52)\<close>; a result of \<open>2^1024\<close> or more is an
  infinity.
\<close>

definition to_double :: "rat \<Rightarrow> jsnum" where
  "to_double q =
     (let a = \<bar>q\<bar>;
          ulp = 2 powi (double_exponent a - 52);
          r = of_int (round_half_even (a / ulp)) * ulp
      in if 2 ^ 1024 \<le> r then (if q < 0 then NegInfinity else PosInfinity)
         else Finite (if q < 0 then - r else r))"

text \<open>\<open>a + b\<close> on numbers.\<close>

fun js_add :: "jsnum \<Rightarrow> jsnum \<Rightarrow> jsnum" where
  "js_add NaN _ = NaN"
| "js_add _ NaN = NaN"
| "js_add (Finite a) (Finite b) = to_double (a + b)"
| "js_add PosInfinity NegInfinity = NaN"
| "js_add NegInfinity PosInfinity = NaN"
| "js_add PosInfinity _ = PosInfinity"
| "js_add _ PosInfinity = PosInfinity"
| "js_add NegInfinity _ = NegInfinity"
| "js_add _ NegInfinity = NegInfinity"

text \<open>\<open>a < b\<close> on numbers: every comparison with NaN is false.\<close>

fun js_lt :: "jsnum \<Rightarrow> jsnum \<Rightarrow> bool" where
  "js_lt NaN _ = False"
| "js_lt _ NaN = False"
| "js_lt (Finite a) (Finite b) = (a < b)"
| "js_lt _ NegInfinity = False"
| "js_lt PosInfinity _ = False"
| "js_lt NegInfinity _ = True"
| "js_lt _ PosInfinity = True"

text \<open>\<open>a > b\<close> and \<open>a <= b\<close>.\<close>

definition js_gt :: "jsnum \<Rightarrow> jsnum \<Rightarrow> bool" where
  "js_gt a b = js_lt b a"

definition js_le :: "jsnum \<Rightarrow> jsnum \<Rightarrow> bool" where
  "js_le a b = (a \<noteq> NaN \<and> b \<noteq> NaN \<and> \<not> js_lt b a)"

text \<open>\<open>a * b\<close> on numbers.\<close>

fun js_mul :: "jsnum \<Rightarrow> jsnum \<Rightarrow> jsnum" where
  "js_mul NaN _ = NaN"
| "js_mul _ NaN = NaN"
| "js_mul (Finite a) (Finite b) = to_double (a * b)"
| "js_mul (Finite a) PosInfinity =
     (if a = 0 then NaN else if 0 < a then PosInfinity else NegInfinity)"
| "js_mul (Finite a) NegInfinity =
     (if a = 0 then NaN else if 0 < a then NegInfinity else PosInfinity)"
| "js_mul PosInfinity (Finite b) =
     (if b = 0 then NaN else if 0 < b then PosInfinity else NegInfinity)"
| "js_mul NegInfinity (Finite b) =
     (if b = 0 then NaN else if 0 < b then NegInfinity else PosInfinity)"
| "js_mul PosInfinity PosInfinity = PosInfinity"
| "js_mul NegInfinity NegInfinity = PosInfinity"
| "js_mul PosInfinity NegInfinity = NegInfinity"
| "js_mul NegInfinity PosInfinity = NegInfinity"

text \<open>\<open>a / b\<close> on numbers. A zero divisor stands for \<open>+0\<close>.\<close>

fun js_div :: "jsnum \<Rightarrow> jsnum \<Rightarrow> jsnum" where
  "js_div NaN _ = NaN"
| "js_div _ NaN = NaN"
| "js_div (Finite a) (Finite b) =
     (if b \<noteq> 0 then to_double (a / b)
      else if a = 0 then NaN else if 0 < a then PosInfinity else NegInfinity)"
| "js_div (Finite a) PosInfinity = Finite 0"
| "js_div (Finite a) NegInfinity = Finite 0"
| "js_div PosInfinity (Finite b) = (if 0 \<le> b then PosInfinity else NegInfinity)"
| "js_div NegInfinity (Finite b) = (if 0 \<le> b then NegInfinity else PosInfinity)"
| "js_div PosInfinity PosInfinity = NaN"
| "js_div PosInfinity NegInfinity = NaN"
| "js_div NegInfinity PosInfinity = NaN"
| "js_div NegInfinity NegInfinity = NaN"

text \<open>
  \<open>x || 0\<close> for a number \<open>x\<close>: the falsy numbers are \<open>0\<close> and NaN.
\<close>

definition js_or_zero :: "jsnum \<Rightarrow> jsnum" where
  "js_or_zero x = (if x = NaN \<or> x = Finite 0 then Finite 0 else x)"

section \<open>JavaScript values and request bodies\<close>

text \<open>A value a handler reads from \<open>req.body\<close>.\<close>

datatype jsval =
    JUndefined
  | JNull
  | JBool bool
  | JNumber jsnum
  | JString string
  | JObject

text \<open>\<open>typeof v === 'number'\<close>\<close>

fun typeof_number :: "jsval \<Rightarrow> bool" where
  "typeof_number (JNumber _) = True"
| "typeof_number _ = False"

text \<open>
  The body arrives as JSON text and \<open>express.json()\<close> parses it. A JSON number is a
  decimal literal, a rational; parsing rounds it to the nearest double, so a literal such
  as \<open>1e999\<close> becomes \<open>Infinity\<close>. No JSON text parses to NaN. A field the body does not
  have reads as \<open>undefined\<close>.
\<close>

datatype json =
    JsonNull
  | JsonBool bool
  | JsonNumber rat
  | JsonString string
  | JsonObject

fun body_field :: "json option \<Rightarrow> jsval" where
  "body_field None = JUndefined"
| "body_field (Some JsonNull) = JNull"
| "body_field (Some (JsonBool b)) = JBool b"
| "body_field (Some (JsonNumber q)) = JNumber (to_double q)"
| "body_field (Some (JsonString s)) = JString s"
| "body_field (Some JsonObject) = JObject"

subsection \<open>\<open>Number.prototype.toFixed(2)\<close>\<close>

definition digit_char :: "nat \<Rightarrow> char" where
  "digit_char d = ''0123456789'' ! d"

fun nat_digits :: "nat \<Rightarrow> string" where
  "nat_digits n =
     (if n < 10 then [digit_char n] else nat_digits (n div 10) @ [digit_char (n mod 10)])"

declare nat_digits.simps [simp del]

text \<open>
  \<open>x.toFixed(2)\<close>: the sign, then the integer \<open>n\<close> nearest to \<open>|x| * 100\<close> (the
  larger one on a tie) written with a point before its last two digits. NaN and the
  infinities print by name. From \<open>10^21\<close> on, JavaScript answers in exponent notation,
  not in two decimals: that answer is \<open>None\<close> here.
\<close>

definition toFixed2 :: "jsnum \<Rightarrow> string option" where
  "toFixed2 x =
     (case x of
        NaN \<Rightarrow> Some ''NaN''
      | PosInfinity \<Rightarrow> Some ''Infinity''
      | NegInfinity \<Rightarrow> Some ''-Infinity''
      | Finite q \<Rightarrow>
          if 10 ^ 21 \<le> \<bar>q\<bar> then None
          else
            let n = nat \<lfloor>\<bar>q\<bar> * 100 + 1 / 2\<rfloor>
            in Some ((if q < 0 then ''-'' else '''')
                     @ nat_digits (n div 100)
                     @ ''.''
                     @ [digit_char (n div 10 mod 10), digit_char (n mod 10)]))"

section \<open>The campaign model (\<open>src/models/Campaign.js\<close>)\<close>

record campaign_analytics =
  impressions :: jsnum
  clicks :: jsnum
  ctr :: jsnum

record campaign =
  advertiser :: string
  campaignName :: string
  campaignDescription :: string
  campaignType :: string
  headline :: string
  body :: string
  callToAction :: string
  imageUrl :: string
  status :: string
  analytics :: campaign_analytics

text \<open>The schema's defaults for the \<open>analytics\<close> sub-document and for \<open>status\<close>.\<close>

definition default_analytics :: campaign_analytics where
  "default_analytics = \<lparr>impressions = Finite 0, clicks = Finite 0, ctr = Finite 0\<rparr>"

definition default_status :: string where
  "default_status = ''ACTIVE''"

definition campaignType_enum :: "string list" where
  "campaignType_enum = [''BANNER'', ''FEATURED'', ''INTERACTIVE'']"

text \<open>
  The hook registered with \<open>campaignSchema.pre('save', ...)\<close>: it assigns \<open>ctr\<close> only
  under its guard \<open>impressions > 0\<close> and has no other branch.
\<close>

definition pre_save :: "campaign \<Rightarrow> campaign" where
  "pre_save this =
     (if js_gt (impressions (analytics this)) (Finite 0)
      then this\<lparr>analytics := (analytics this)\<lparr>ctr :=
             js_mul (js_div (clicks (analytics this)) (impressions (analytics this)))
                    (Finite 100)\<rparr>\<rparr>
      else this)"

section \<open>The collection\<close>

text \<open>
  The stored campaigns, each under its \<open>_id\<close>. The object-document mapper is outside the
  repository; the model takes from it what the controller relies on. \<open>findOne\<close> and
  \<open>findById\<close> return the document stored under an id. The schema's \<open>Number\<close> paths
  refuse NaN: assigning NaN to one of them makes \<open>save()\<close> fail, and giving NaN to
  \<open>findByIdAndUpdate\<close> makes the update fail; the infinities are numbers and are stored.
  A \<open>save()\<close> that does not fail runs the pre-save hook and writes the document back
  under its id. \<open>create\<close> fills in the schema's defaults, validates \<open>required\<close> and
  \<open>enum\<close>, runs the hook and inserts. \<open>findByIdAndUpdate\<close> writes the given fields
  straight to the stored document, without validators and without the hook. An id that
  is not a well-formed object id makes every query for it fail. Each failure is thrown
  inside the handler's \<open>try\<close> and answered by its \<open>catch\<close> with status 500.
\<close>

type_synonym db = "(string \<times> campaign) list"

text \<open>\<open>req.params.id\<close> as the mapper sees it.\<close>

datatype id_param = Malformed_id | Object_id string

fun findById :: "db \<Rightarrow> string \<Rightarrow> campaign option" where
  "findById [] cid = None"
| "findById ((k, c) # rest) cid = (if k = cid then Some c else findById rest cid)"

fun write_doc :: "string \<Rightarrow> campaign \<Rightarrow> db \<Rightarrow> db" where
  "write_doc cid doc [] = []"
| "write_doc cid doc ((k, c) # rest) =
     (if k = cid then (k, doc) # rest else (k, c) # write_doc cid doc rest)"

definition has_NaN :: "campaign_analytics \<Rightarrow> bool" where
  "has_NaN a = (impressions a = NaN \<or> clicks a = NaN \<or> ctr a = NaN)"

text \<open>\<open>campaign.save()\<close>; \<open>None\<close> is the rejection the handler catches.\<close>

definition save :: "string \<Rightarrow> campaign \<Rightarrow> db \<Rightarrow> (campaign \<times> db) option" where
  "save cid doc d =
     (if has_NaN (analytics doc) then None
      else let saved = pre_save doc in Some (saved, write_doc cid saved d))"

text \<open>What a handler answers: \<open>res.status(s).json({message: m})\<close> on a refusal or a
  failure, or a status with a payload.\<close>

datatype 'a response = Rejected nat string | Replied nat 'a

section \<open>The campaign controller\<close>

subsection \<open>\<open>updateCampaignAnalytics\<close>\<close>

record analytics_json =
  json_impressions :: jsnum
  json_clicks :: jsnum
  json_ctr :: "string option"

record analytics_reply =
  message :: string
  reply_analytics :: analytics_json

text \<open>The expression under \<open>// Calculate CTR\<close> in the handler.\<close>

definition calc_ctr :: "jsnum \<Rightarrow> jsnum \<Rightarrow> jsnum" where
  "calc_ctr newImpressions newClicks =
     (if js_gt newImpressions (Finite 0)
      then js_mul (js_div newClicks newImpressions) (Finite 100)
      else Finite 0)"

definition updateCampaignAnalytics ::
  "db \<Rightarrow> id_param \<Rightarrow> jsval \<Rightarrow> jsval \<Rightarrow> analytics_reply response \<times> db" where
  "updateCampaignAnalytics d rid impressionsV clicksV =
     (case (impressionsV, clicksV) of
        (JNumber imps, JNumber clks) \<Rightarrow>
          if js_lt imps (Finite 0) \<or> js_lt clks (Finite 0)
          then (Rejected 400 ''Impressions and clicks cannot be negative'', d)
          else
            (case rid of
               Malformed_id \<Rightarrow> (Rejected 500 ''Error updating campaign analytics'', d)
             | Object_id cid \<Rightarrow>
                 (case findById d cid of
                    None \<Rightarrow> (Rejected 404 ''Campaign not found'', d)
                  | Some campaign \<Rightarrow>
                      let newImpressions =
                            js_add (js_or_zero (impressions (analytics campaign))) imps;
                          newClicks = js_add (js_or_zero (clicks (analytics campaign))) clks
                      in if js_gt newClicks newImpressions
                         then (Rejected 400 ''Clicks cannot be greater than impressions'', d)
                         else
                           let ctrV = calc_ctr newImpressions newClicks
                           in (case save cid
                                      (campaign\<lparr>analytics :=
                                         \<lparr>impressions = newImpressions, clicks = newClicks,
                                          ctr = ctrV\<rparr>\<rparr>)
                                      d of
                                 None \<Rightarrow>
                                   (Rejected 500 ''Error updating campaign analytics'', d)
                               | Some (saved, d') \<Rightarrow>
                                   (Replied 200
                                      \<lparr>message = ''Campaign analytics updated successfully'',
                                       reply_analytics =
                                         \<lparr>json_impressions = impressions (analytics saved),
                                          json_clicks = clicks (analytics saved),
                                          json_ctr = toFixed2 (ctr (analytics saved))\<rparr>\<rparr>,
                                    d'))))
      | _ \<Rightarrow> (Rejected 400 ''Impressions and clicks must be numbers'', d))"

text \<open>
  The route \<open>PUT /:id/analytics\<close>: the handler on the parsed body's \<open>impressions\<close> and
  \<open>clicks\<close>.
\<close>

definition put_analytics ::
  "db \<Rightarrow> id_param \<Rightarrow> json option \<Rightarrow> json option \<Rightarrow> analytics_reply response \<times> db" where
  "put_analytics d rid impressionsJ clicksJ =
     updateCampaignAnalytics d rid (body_field impressionsJ) (body_field clicksJ)"

subsection \<open>\<open>createCampaign\<close>\<close>

text \<open>
  The request: the uploaded file's path if there is one, the authenticated user's id, and
  the body's fields, each present or not.
\<close>

record create_request =
  req_file :: "string option"
  req_userId :: string
  req_campaignName :: "string option"
  req_campaignDescription :: "string option"
  req_campaignType :: "string option"
  req_headline :: "string option"
  req_body :: "string option"
  req_callToAction :: "string option"

text \<open>A \<open>required\<close> string path of the schema: present and not empty.\<close>

definition required_ok :: "string option \<Rightarrow> bool" where
  "required_ok v = (case v of None \<Rightarrow> False | Some s \<Rightarrow> s \<noteq> [])"

text \<open>
  \<open>Campaign.create({advertiser, campaignName, ..., imageUrl})\<close>: the object names neither
  \<open>status\<close> nor \<open>analytics\<close>, so both take the schema's defaults; the document is
  validated against \<open>required\<close> and \<open>enum\<close>, passes the pre-save hook and is inserted
  under the fresh id the store hands out. \<open>None\<close> is the validation error the handler
  catches.
\<close>

definition Campaign_create ::
  "string \<Rightarrow> string \<Rightarrow> string \<Rightarrow> create_request \<Rightarrow> db \<Rightarrow> (campaign \<times> db) option" where
  "Campaign_create new_id advertiserV imageUrlV req d =
     (if required_ok (Some advertiserV) \<and> required_ok (req_campaignName req)
         \<and> required_ok (req_campaignDescription req) \<and> required_ok (req_campaignType req)
         \<and> required_ok (req_headline req) \<and> required_ok (req_body req)
         \<and> required_ok (req_callToAction req) \<and> required_ok (Some imageUrlV)
         \<and> the (req_campaignType req) \<in> set campaignType_enum
      then
        let doc = pre_save
              \<lparr>advertiser = advertiserV,
               campaignName = the (req_campaignName req),
               campaignDescription = the (req_campaignDescription req),
               campaignType = the (req_campaignType req),
               headline = the (req_headline req),
               body = the (req_body req),
               callToAction = the (req_callToAction req),
               imageUrl = imageUrlV,
               status = default_status,
               analytics = default_analytics\<rparr>
        in Some (doc, d @ [(new_id, doc)])
      else None)"

record create_reply =
  create_message :: string
  created_campaign :: campaign

text \<open>
  \<open>upload\<close> is what the image host answers for the uploaded file: the \<open>secure_url\<close> of
  the stored image, or \<open>None\<close> when the upload throws.
\<close>

definition createCampaign ::
  "db \<Rightarrow> string \<Rightarrow> string option \<Rightarrow> create_request \<Rightarrow> create_reply response \<times> db" where
  "createCampaign d new_id upload req =
     (case req_file req of
        None \<Rightarrow> (Rejected 400 ''Image is required'', d)
      | Some path \<Rightarrow>
          (case upload of
             None \<Rightarrow> (Rejected 500 ''Error creating campaign'', d)
           | Some secure_url \<Rightarrow>
               (case Campaign_create new_id (req_userId req) secure_url req d of
                  None \<Rightarrow> (Rejected 500 ''Error creating campaign'', d)
                | Some (campaign, d') \<Rightarrow>
                    (Replied 201
                       \<lparr>create_message = ''Campaign created successfully'',
                        created_campaign = campaign\<rparr>,
                     d'))))"

subsection \<open>\<open>updateCampaignDetails\<close>\<close>

text \<open>
  The request body is handed to \<open>findByIdAndUpdate\<close> as it is. Of that body the model
  keeps the paths of the schema, each given or not; an \<open>analytics\<close> entry is a complete
  object with its three numbers.
\<close>

record campaign_update =
  set_advertiser :: "string option"
  set_campaignName :: "string option"
  set_campaignDescription :: "string option"
  set_campaignType :: "string option"
  set_headline :: "string option"
  set_body :: "string option"
  set_callToAction :: "string option"
  set_imageUrl :: "string option"
  set_status :: "string option"
  set_analytics :: "campaign_analytics option"

definition or_keep :: "'a option \<Rightarrow> 'a \<Rightarrow> 'a" where
  "or_keep v old = (case v of None \<Rightarrow> old | Some new \<Rightarrow> new)"

definition apply_update :: "campaign_update \<Rightarrow> campaign \<Rightarrow> campaign" where
  "apply_update u c =
     \<lparr>advertiser = or_keep (set_advertiser u) (advertiser c),
      campaignName = or_keep (set_campaignName u) (campaignName c),
      campaignDescription = or_keep (set_campaignDescription u) (campaignDescription c),
      campaignType = or_keep (set_campaignType u) (campaignType c),
      headline = or_keep (set_headline u) (headline c),
      body = or_keep (set_body u) (body c),
      callToAction = or_keep (set_callToAction u) (callToAction c),
      imageUrl = or_keep (set_imageUrl u) (imageUrl c),
      status = or_keep (set_status u) (status c),
      analytics = or_keep (set_analytics u) (analytics c)\<rparr>"

text \<open>The update is refused by the mapper when it carries NaN for a number.\<close>

definition update_castable :: "campaign_update \<Rightarrow> bool" where
  "update_castable u = (case set_analytics u of None \<Rightarrow> True | Some a \<Rightarrow> \<not> has_NaN a)"

record details_reply =
  details_message :: string
  details_campaign :: campaign

definition updateCampaignDetails ::
  "db \<Rightarrow> id_param \<Rightarrow> campaign_update \<Rightarrow> details_reply response \<times> db" where
  "updateCampaignDetails d rid updateData =
     (case rid of
        Malformed_id \<Rightarrow> (Rejected 500 ''Error updating campaign details'', d)
      | Object_id cid \<Rightarrow>
          if \<not> update_castable updateData
          then (Rejected 500 ''Error updating campaign details'', d)
          else
            (case findById d cid of
               None \<Rightarrow> (Rejected 404 ''Campaign not found'', d)
             | Some old \<Rightarrow>
                 let campaign = apply_update updateData old
                 in (Replied 200
                       \<lparr>details_message = ''Campaign details updated successfully'',
                        details_campaign = campaign\<rparr>,
                     write_doc cid campaign d)))"

subsection \<open>\<open>getDashboardStats\<close>\<close>

record performance_json =
  perf_impressions :: jsnum
  perf_clicks :: jsnum
  perf_ctr :: "string option"

record campaign_summary =
  summary_id :: string
  summary_name :: string
  summary_type :: string
  summary_status :: string
  performance :: performance_json

record dashboard_reply =
  activeCampaigns :: nat
  totalImpressions :: jsnum
  overallCTR :: "string option"
  campaigns :: "campaign_summary list"

text \<open>\<open>Campaign.find({advertiser: userId})\<close>\<close>

definition find_by_advertiser :: "db \<Rightarrow> string \<Rightarrow> (string \<times> campaign) list" where
  "find_by_advertiser d userId = filter (\<lambda>(k, c). advertiser c = userId) d"

text \<open>The two \<open>reduce\<close> calls and the ratio, as the handler's three constants.\<close>

definition totalImpressions_of :: "(string \<times> campaign) list \<Rightarrow> jsnum" where
  "totalImpressions_of docs =
     foldl (\<lambda>sum kc. js_add sum (impressions (analytics (snd kc)))) (Finite 0) docs"

definition totalClicks_of :: "(string \<times> campaign) list \<Rightarrow> jsnum" where
  "totalClicks_of docs =
     foldl (\<lambda>sum kc. js_add sum (clicks (analytics (snd kc)))) (Finite 0) docs"

definition overallCTR_of :: "(string \<times> campaign) list \<Rightarrow> jsnum" where
  "overallCTR_of docs =
     (if js_gt (totalImpressions_of docs) (Finite 0)
      then js_mul (js_div (totalClicks_of docs) (totalImpressions_of docs)) (Finite 100)
      else Finite 0)"

definition getDashboardStats :: "db \<Rightarrow> string \<Rightarrow> dashboard_reply response" where
  "getDashboardStats d userId =
     (let docs = find_by_advertiser d userId
      in Replied 200
           \<lparr>activeCampaigns = length (filter (\<lambda>(k, c). status c = ''ACTIVE'') docs),
            totalImpressions = totalImpressions_of docs,
            overallCTR = toFixed2 (overallCTR_of docs),
            campaigns =
              map (\<lambda>(k, c).
                     \<lparr>summary_id = k,
                      summary_name = campaignName c,
                      summary_type = campaignType c,
                      summary_status = status c,
                      performance =
                        \<lparr>perf_impressions = impressions (analytics c),
                         perf_clicks = clicks (analytics c),
                         perf_ctr = toFixed2 (ctr (analytics c))\<rparr>\<rparr>)
                  docs\<rparr>)"

section \<open>Notions used in the statements\<close>

text \<open>
  The document an accepted analytics update writes, and the payload it answers with, as
  functions of the stored campaign and the two increments.
\<close>

definition accepted_doc :: "campaign \<Rightarrow> jsnum \<Rightarrow> jsnum \<Rightarrow> campaign" where
  "accepted_doc c x y =
     (let i = js_add (js_or_zero (impressions (analytics c))) x;
          k = js_add (js_or_zero (clicks (analytics c))) y
      in c\<lparr>analytics := \<lparr>impressions = i, clicks = k, ctr = calc_ctr i k\<rparr>\<rparr>)"

definition reply_for :: "campaign \<Rightarrow> analytics_reply" where
  "reply_for c =
     \<lparr>message = ''Campaign analytics updated successfully'',
      reply_analytics =
        \<lparr>json_impressions = impressions (analytics c),
         json_clicks = clicks (analytics c),
         json_ctr = toFixed2 (ctr (analytics c))\<rparr>\<rparr>"

text \<open>
  The invariant of the analytics sub-document: clicks are at most impressions, and \<open>ctr\<close>
  is the value derived from the two counters.
\<close>

definition analytics_invariant :: "campaign_analytics \<Rightarrow> bool" where
  "analytics_invariant a =
     (js_le (clicks a) (impressions a) \<and> ctr a = calc_ctr (impressions a) (clicks a))"

text \<open>
  The shape of a two-decimal string: an optional minus sign, at least one digit, a point,
  two digits.
\<close>

definition is_digit :: "char \<Rightarrow> bool" where
  "is_digit ch = (ch \<in> set ''0123456789'')"

definition two_decimals :: "string \<Rightarrow> bool" where
  "two_decimals s =
     (let t = (if take 1 s = ''-'' then drop 1 s else s); n = length t
      in 4 \<le> n \<and> list_all is_digit (take (n - 3) t) \<and> t ! (n - 3) = CHR ''.''
         \<and> is_digit (t ! (n - 2)) \<and> is_digit (t ! (n - 1)))"

text \<open>
  Finite numbers and their values; a count is a finite number that is a non-negative
  integer.
\<close>

definition is_finite :: "jsnum \<Rightarrow> bool" where
  "is_finite x = (case x of Finite q \<Rightarrow> True | _ \<Rightarrow> False)"

fun rat_of :: "jsnum \<Rightarrow> rat" where
  "rat_of (Finite q) = q"
| "rat_of _ = 0"

definition is_count :: "jsnum \<Rightarrow> bool" where
  "is_count x = (case x of Finite q \<Rightarrow> 0 \<le> q \<and> of_int \<lfloor>q\<rfloor> = q | _ \<Rightarrow> False)"

text \<open>The sum of a list of numbers as JavaScript adds them, left to right from 0.\<close>

definition js_sum :: "jsnum list \<Rightarrow> jsnum" where
  "js_sum xs = foldl js_add (Finite 0) xs"

text \<open>
  The other reading of an overall rate, which the dashboard does not compute: the mean of
  the campaigns' stored \<open>ctr\<close> values. It is here only to be compared with
  \<open>overallCTR_of\<close>.
\<close>

definition mean_of_ctrs :: "(string \<times> campaign) list \<Rightarrow> jsnum" where
  "mean_of_ctrs docs =
     js_div (foldl (\<lambda>sum kc. js_add sum (ctr (analytics (snd kc)))) (Finite 0) docs)
            (Finite (of_nat (length docs)))"

text \<open>Example data: campaigns of one advertiser with given counters, and requests.\<close>

definition sample_campaign :: "jsnum \<Rightarrow> jsnum \<Rightarrow> jsnum \<Rightarrow> campaign" where
  "sample_campaign i k r =
     \<lparr>advertiser = ''u1'', campaignName = ''Spring sale'',
      campaignDescription = ''Seasonal offer'', campaignType = ''BANNER'',
      headline = ''Save now'', body = ''All items reduced'', callToAction = ''Shop'',
      imageUrl = ''https://img.example/1.png'', status = ''ACTIVE'',
      analytics = \<lparr>impressions = i, clicks = k, ctr = r\<rparr>\<rparr>"

definition sample_db :: db where
  "sample_db = [(''c1'', sample_campaign (Finite 10) (Finite 5) (Finite 50))]"

definition two_campaigns :: db where
  "two_campaigns =
     [(''c1'', sample_campaign (Finite 100) (Finite 50) (Finite 50)),
      (''c2'', sample_campaign (Finite 900) (Finite 0) (Finite 0))]"

text \<open>A request body for \<open>updateCampaignDetails\<close> that names only \<open>analytics\<close>.\<close>

definition analytics_only_update :: "campaign_analytics \<Rightarrow> campaign_update" where
  "analytics_only_update a =
     \<lparr>set_advertiser = None, set_campaignName = None, set_campaignDescription = None,
      set_campaignType = None, set_headline = None, set_body = None,
      set_callToAction = None, set_imageUrl = None, set_status = None,
      set_analytics = Some a\<rparr>"

definition sample_request :: create_request where
  "sample_request =
     \<lparr>req_file = Some ''uploads/image-1.png'', req_userId = ''u1'',
      req_campaignName = Some ''Spring sale'',
      req_campaignDescription = Some ''Seasonal offer'',
      req_campaignType = Some ''BANNER'', req_headline = Some ''Save now'',
      req_body = Some ''All items reduced'', req_callToAction = Some ''Shop''\<rparr>"

section \<open>Facts about rounding\<close>

lemma finite_exponents:
  "finite (insert (- 1022) {e \<in> {- 1022..1023}. (2::rat) powi e \<le> a})"
proof -
  have "{e \<in> {- 1022..1023}. (2::rat) powi e \<le> a} \<subseteq> {- 1022..1023}"
    by blast
  then have "finite {e \<in> {- 1022..1023}. (2::rat) powi e \<le> a}"
    by (rule finite_subset) simp
  then show ?thesis by (rule finite.insertI)
qed

lemma double_exponent_eq:
  assumes "- 1022 \<le> e" "e \<le> 1023" "2 powi e \<le> a" "a < 2 powi (e + 1)"
  shows "double_exponent a = e"
  unfolding double_exponent_def
proof (rule Max_eqI)
  show "finite (insert (- 1022) {e \<in> {- 1022..1023}. (2::rat) powi e \<le> a})"
    by (rule finite_exponents)
  show "e \<in> insert (- 1022) {e \<in> {- 1022..1023}. (2::rat) powi e \<le> a}"
    using assms by simp
  fix y assume y: "y \<in> insert (- 1022) {e \<in> {- 1022..1023}. (2::rat) powi e \<le> a}"
  show "y \<le> e"
  proof (rule ccontr)
    assume "\<not> y \<le> e"
    then have "e + 1 \<le> y" by simp
    then have "(2::rat) powi (e + 1) \<le> 2 powi y"
      by (intro power_int_increasing) simp_all
    moreover from y \<open>\<not> y \<le> e\<close> assms(1) have "(2::rat) powi y \<le> a"
      by auto
    ultimately show False using assms(4) by simp
  qed
qed

lemma double_exponent_subnormal:
  assumes "a < 2 powi (- 1022)"
  shows "double_exponent a = - 1022"
  unfolding double_exponent_def
proof (rule Max_eqI)
  show "finite (insert (- 1022) {e \<in> {- 1022..1023}. (2::rat) powi e \<le> a})"
    by (rule finite_exponents)
  show "- 1022 \<in> insert (- 1022) {e \<in> {- 1022..1023}. (2::rat) powi e \<le> a}"
    by simp
  fix y assume y: "y \<in> insert (- 1022) {e \<in> {- 1022..1023}. (2::rat) powi e \<le> a}"
  show "y \<le> - 1022"
  proof (rule ccontr)
    assume n: "\<not> y \<le> - 1022"
    with y have "(2::rat) powi y \<le> a" by auto
    moreover from n have "(2::rat) powi (- 1022) \<le> 2 powi y"
      by (intro power_int_increasing) simp_all
    ultimately show False using assms by simp
  qed
qed

lemma round_half_even_of_int: "round_half_even (of_int n) = n"
  by (simp add: round_half_even_def)

lemma round_half_even_near:
  assumes "of_int n - 1 / 2 < x" "x < of_int n + 1 / 2"
  shows "round_half_even x = n"
proof (cases "of_int n \<le> x")
  case True
  then have "\<lfloor>x\<rfloor> = n" using assms(2) by (intro floor_unique) simp_all
  with assms show ?thesis by (simp add: round_half_even_def Let_def)
next
  case False
  then have "\<lfloor>x\<rfloor> = n - 1" using assms(1) by (intro floor_unique) simp_all
  with assms False show ?thesis by (simp add: round_half_even_def Let_def)
qed

lemma to_double_not_NaN: "to_double q \<noteq> NaN"
  by (simp add: to_double_def Let_def)

lemma to_double_0: "to_double 0 = Finite 0"
proof -
  have "double_exponent 0 = - 1022"
    by (rule double_exponent_subnormal) simp
  then show ?thesis
    by (simp add: to_double_def Let_def round_half_even_of_int [of 0, simplified])
qed

lemma to_double_near:
  assumes e: "- 1022 \<le> e" "e \<le> 1023"
    and q: "2 powi e \<le> \<bar>q\<bar>" "\<bar>q\<bar> < 2 powi (e + 1)"
    and n: "of_int n - 1 / 2 < \<bar>q\<bar> / 2 powi (e - 52)" "\<bar>q\<bar> / 2 powi (e - 52) < of_int n + 1 / 2"
    and fin: "of_int n * 2 powi (e - 52) < (2::rat) ^ 1024"
  shows "to_double q = Finite (if q < 0 then - (of_int n * 2 powi (e - 52)) else of_int n * 2 powi (e - 52))"
proof -
  have x: "double_exponent \<bar>q\<bar> = e"
    using e q by (rule double_exponent_eq)
  have r: "round_half_even (\<bar>q\<bar> / 2 powi (e - 52)) = n"
    using n by (rule round_half_even_near)
  from fin have nf: "\<not> 2 ^ 1024 \<le> of_int n * (2::rat) powi (e - 52)"
    by simp
  show ?thesis
    unfolding to_double_def Let_def x r by (simp only: nf if_False)
qed

lemma to_double_exact:
  assumes e: "- 1022 \<le> e" "e \<le> 1023"
    and q: "2 powi e \<le> \<bar>q\<bar>" "\<bar>q\<bar> < 2 powi (e + 1)"
    and n: "\<bar>q\<bar> / 2 powi (e - 52) = of_int n"
  shows "to_double q = Finite q"
proof -
  have x: "double_exponent \<bar>q\<bar> = e"
    using e q by (rule double_exponent_eq)
  have pos: "(0::rat) < 2 powi (e - 52)"
    by simp
  from n pos have again: "of_int n * 2 powi (e - 52) = \<bar>q\<bar>"
    by (simp add: field_simps)
  have "(2::rat) powi (e + 1) \<le> 2 powi 1024"
    using e by (intro power_int_increasing) simp_all
  with q have small: "\<bar>q\<bar> < 2 ^ 1024"
    by simp
  from small have nf: "\<not> 2 ^ 1024 \<le> \<bar>q\<bar>"
    by simp
  have "to_double q = Finite (if q < 0 then - \<bar>q\<bar> else \<bar>q\<bar>)"
    unfolding to_double_def Let_def x n round_half_even_of_int again by (simp only: nf if_False)
  then show ?thesis
    by (simp add: abs_if)
qed

lemma to_double_int:
  assumes "\<bar>n\<bar> \<le> 2 ^ 53"
  shows "to_double (of_int n) = Finite (of_int n)"
proof (cases "n = 0")
  case True
  then show ?thesis by (simp add: to_double_0)
next
  case False
  then have "1 \<le> nat \<bar>n\<bar>" by simp
  from ex_power_ivl1 [OF _ this, of 2] obtain m where
    m: "2 ^ m \<le> nat \<bar>n\<bar>" "nat \<bar>n\<bar> < 2 ^ (m + 1)"
    by auto
  from m have lo: "(2::int) ^ m \<le> \<bar>n\<bar>" and hi: "\<bar>n\<bar> < 2 ^ (m + 1)"
    by (simp_all add: le_nat_iff nat_less_iff)
  have "m \<le> 53"
  proof (rule ccontr)
    assume "\<not> m \<le> 53"
    then have "(2::int) ^ 54 \<le> 2 ^ m"
      by (intro power_increasing) simp_all
    with lo assms show False by simp
  qed
  have q1: "(2::rat) powi int m \<le> \<bar>of_int n\<bar>"
  proof -
    have "(of_int (2 ^ m) :: rat) \<le> of_int \<bar>n\<bar>"
      using lo by (simp only: of_int_le_iff)
    then show ?thesis by simp
  qed
  have q2: "\<bar>of_int n :: rat\<bar> < 2 powi (int m + 1)"
  proof -
    have "(of_int \<bar>n\<bar> :: rat) < of_int (2 ^ (m + 1))"
      using hi by (simp only: of_int_less_iff)
    then show ?thesis by (simp add: power_int_add)
  qed
  have "\<exists>k. \<bar>of_int n :: rat\<bar> / 2 powi (int m - 52) = of_int k"
  proof (cases "m \<le> 52")
    case True
    have "(2::rat) powi (int m - 52) = inverse (2 ^ (52 - m))"
    proof -
      have "int m - 52 = - int (52 - m)" using True by simp
      then show ?thesis by (simp only: power_int_minus power_int_of_nat)
    qed
    then have "\<bar>of_int n :: rat\<bar> / 2 powi (int m - 52) = of_int (\<bar>n\<bar> * 2 ^ (52 - m))"
      by (simp add: field_simps)
    then show ?thesis ..
  next
    case False
    with \<open>m \<le> 53\<close> have m53: "m = 53" by simp
    with lo assms have "\<bar>n\<bar> = 2 ^ 53" by simp
    then have "\<bar>of_int n :: rat\<bar> = 2 ^ 53"
      by (metis of_int_abs of_int_numeral of_int_power)
    then have "\<bar>of_int n :: rat\<bar> / 2 powi (int m - 52) = of_int (2 ^ 52)"
      by (simp add: m53)
    then show ?thesis ..
  qed
  then obtain k where k: "\<bar>of_int n :: rat\<bar> / 2 powi (int m - 52) = of_int k" ..
  have "- 1022 \<le> int m" "int m \<le> 1023"
    using \<open>m \<le> 53\<close> by simp_all
  then show ?thesis
    using q1 q2 k by (rule to_double_exact)
qed

lemma round_half_even_bound:
  assumes "0 \<le> x"
  shows "0 \<le> round_half_even x \<and> of_int (round_half_even x) \<le> 2 * x"
proof -
  define f where "f = \<lfloor>x\<rfloor>"
  have f0: "0 \<le> f" using assms by (simp add: f_def)
  have fx: "of_int f \<le> x" "x < of_int f + 1"
    by (simp_all add: f_def) linarith
  show ?thesis
  proof (cases "f = 0")
    case True
    with fx have "x < 1" by simp
    then show ?thesis
      using assms True
      by (auto simp: round_half_even_def Let_def f_def [symmetric])
  next
    case False
    with f0 have "1 \<le> f" by simp
    then have "(1::rat) \<le> of_int f" by simp
    with fx have "of_int (f + 1) \<le> 2 * x" by simp
    moreover have "of_int f \<le> 2 * x" using fx assms by simp
    ultimately show ?thesis
      using f0 by (auto simp: round_half_even_def Let_def f_def [symmetric])
  qed
qed

lemma to_double_bound:
  assumes "\<bar>q\<bar> \<le> 2 ^ 1000"
  shows "\<exists>r. to_double q = Finite r \<and> \<bar>r\<bar> \<le> 2 * \<bar>q\<bar> \<and> (0 \<le> q \<longrightarrow> 0 \<le> r)"
proof -
  define ulp :: rat where "ulp = 2 powi (double_exponent \<bar>q\<bar> - 52)"
  define n where "n = round_half_even (\<bar>q\<bar> / ulp)"
  have ulp: "0 < ulp" by (simp add: ulp_def)
  then have "0 \<le> \<bar>q\<bar> / ulp" by simp
  from round_half_even_bound [OF this] have n0: "0 \<le> n" and n2: "of_int n \<le> 2 * (\<bar>q\<bar> / ulp)"
    by (simp_all add: n_def)
  from n2 ulp have r2: "of_int n * ulp \<le> 2 * \<bar>q\<bar>"
    by (simp add: field_simps)
  have r0: "0 \<le> of_int n * ulp"
    using n0 ulp by simp
  have "2 * \<bar>q\<bar> \<le> 2 * 2 ^ 1000" using assms by simp
  also have "\<dots> < (2::rat) ^ 1024" by simp
  finally have "of_int n * ulp < 2 ^ 1024" using r2 by simp
  then have nf: "\<not> 2 ^ 1024 \<le> of_int n * ulp"
    by simp
  have "to_double q = Finite (if q < 0 then - (of_int n * ulp) else of_int n * ulp)"
    unfolding to_double_def Let_def ulp_def [symmetric] n_def [symmetric]
    by (simp only: nf if_False)
  with r0 r2 show ?thesis
    by auto
qed

section \<open>Facts about the model\<close>

text \<open>Evaluating \<open>to_double\<close> on given numbers.\<close>

lemma to_double_numeral:
  "(numeral k :: int) \<le> 2 ^ 53 \<Longrightarrow> to_double (numeral k) = Finite (numeral k)"
  using to_double_int [of "numeral k"] by simp

lemma to_double_1: "to_double 1 = Finite 1"
  using to_double_int [of 1] by simp

lemma to_double_of_nat:
  "n \<le> 2 ^ 53 \<Longrightarrow> to_double (of_nat n) = Finite (of_nat n)"
proof -
  assume "n \<le> 2 ^ 53"
  then have "\<bar>int n\<bar> \<le> 2 ^ 53"
    by (simp add: nat_le_iff [symmetric] le_nat_iff) 
  from to_double_int [OF this] show ?thesis by simp
qed

lemma round_half_even_tie:
  assumes "x = of_int n + 1 / 2"
  shows "round_half_even x = (if even n then n else n + 1)"
proof -
  have "\<lfloor>x\<rfloor> = n" using assms by (intro floor_unique) simp_all
  with assms show ?thesis by (simp add: round_half_even_def Let_def)
qed

lemma to_double_pos_near:
  assumes "0 < q" "- 1022 \<le> e" "e \<le> 1023"
    and "2 powi e \<le> q" "q < 2 powi (e + 1)"
    and "of_int n - 1 / 2 < q / 2 powi (e - 52)" "q / 2 powi (e - 52) < of_int n + 1 / 2"
    and "of_int n * 2 powi (e - 52) < (2::rat) ^ 1024"
  shows "to_double q = Finite (of_int n * 2 powi (e - 52))"
  using to_double_near [of e q n] assms by simp

lemma to_double_pos_tie:
  assumes "0 < q" "- 1022 \<le> e" "e \<le> 1023"
    and "2 powi e \<le> q" "q < 2 powi (e + 1)"
    and "q / 2 powi (e - 52) = of_int n + 1 / 2" "even n"
    and "of_int n * 2 powi (e - 52) < (2::rat) ^ 1024"
  shows "to_double q = Finite (of_int n * 2 powi (e - 52))"
proof -
  have x: "double_exponent \<bar>q\<bar> = e"
    using assms by (intro double_exponent_eq) simp_all
  have r: "round_half_even (\<bar>q\<bar> / 2 powi (e - 52)) = n"
    using round_half_even_tie [of "\<bar>q\<bar> / 2 powi (e - 52)" n] assms by simp
  from assms have nf: "\<not> 2 ^ 1024 \<le> of_int n * (2::rat) powi (e - 52)"
    by simp
  have "to_double q = Finite (if q < 0 then - (of_int n * 2 powi (e - 52))
                               else of_int n * 2 powi (e - 52))"
    unfolding to_double_def Let_def x r by (simp only: nf if_False)
  with assms(1) show ?thesis by simp
qed

text \<open>Counts add without rounding while the sum stays within \<open>2^53\<close>.\<close>

lemma is_countE:
  assumes "is_count x"
  obtains n :: nat where "x = Finite (of_nat n)"
proof -
  from assms obtain q where q: "x = Finite q" "0 \<le> q" "of_int \<lfloor>q\<rfloor> = q"
    by (auto simp: is_count_def split: jsnum.splits)
  then have "0 \<le> \<lfloor>q\<rfloor>" by simp
  then have "of_nat (nat \<lfloor>q\<rfloor>) = (of_int \<lfloor>q\<rfloor> :: rat)"
    by simp
  also note q(3)
  finally have "x = Finite (of_nat (nat \<lfloor>q\<rfloor>))"
    by (simp only: q(1))
  then show thesis by (rule that)
qed

lemma is_count_of_nat: "is_count (Finite (of_nat n))"
  by (simp add: is_count_def)

lemma js_add_count:
  assumes "is_count x" "is_count y" "rat_of x + rat_of y \<le> 2 ^ 53"
  shows "js_add x y = Finite (rat_of x + rat_of y)"
proof -
  from assms(1) obtain m :: nat where x: "x = Finite (of_nat m)" by (rule is_countE)
  from assms(2) obtain n :: nat where y: "y = Finite (of_nat n)" by (rule is_countE)
  from assms(3) x y have "(of_nat (m + n) :: rat) \<le> of_nat (2 ^ 53)"
    by simp
  then have "m + n \<le> 2 ^ 53"
    by (simp only: of_nat_le_iff)
  from to_double_of_nat [OF this] x y show ?thesis
    by simp
qed

lemma is_count_sum:
  assumes "is_count x" "is_count y"
  shows "is_count (Finite (rat_of x + rat_of y))"
proof -
  from assms(1) obtain m :: nat where x: "x = Finite (of_nat m)" by (rule is_countE)
  from assms(2) obtain n :: nat where y: "y = Finite (of_nat n)" by (rule is_countE)
  have "is_count (Finite (of_nat (m + n)))" by (rule is_count_of_nat)
  with x y show ?thesis by simp
qed

lemma js_add_NaN_right: "js_add a NaN = NaN"
  by (cases a) auto

lemma js_lt_NaN_right: "\<not> js_lt a NaN"
  by (cases a) auto

lemma js_or_zero_id: "x \<noteq> NaN \<Longrightarrow> js_or_zero x = x"
  by (auto simp: js_or_zero_def)

lemma js_or_zero_Finite: "js_or_zero (Finite q) = Finite q"
  by (simp add: js_or_zero_def)

text \<open>The store.\<close>

lemma findById_write_doc:
  "findById d cid = Some c \<Longrightarrow> findById (write_doc cid doc d) cid = Some doc"
  by (induction d) (auto split: if_splits)

lemma write_doc_twice: "write_doc cid a (write_doc cid b d) = write_doc cid a d"
  by (induction d) auto

text \<open>After the handler's own computation of \<open>ctr\<close> the hook changes nothing.\<close>

lemma pre_save_calc_ctr:
  "pre_save (c\<lparr>analytics := \<lparr>impressions = i, clicks = k, ctr = calc_ctr i k\<rparr>\<rparr>)
     = c\<lparr>analytics := \<lparr>impressions = i, clicks = k, ctr = calc_ctr i k\<rparr>\<rparr>"
  by (simp add: pre_save_def calc_ctr_def)

text \<open>The three outcomes of the handler once both input checks have passed.\<close>

lemma update_accepts:
  assumes "findById d cid = Some c" "\<not> js_lt x (Finite 0)" "\<not> js_lt y (Finite 0)"
    and "\<not> js_gt (js_add (js_or_zero (clicks (analytics c))) y)
                  (js_add (js_or_zero (impressions (analytics c))) x)"
    and "\<not> has_NaN (analytics (accepted_doc c x y))"
  shows "updateCampaignAnalytics d (Object_id cid) (JNumber x) (JNumber y)
           = (Replied 200 (reply_for (accepted_doc c x y)),
              write_doc cid (accepted_doc c x y) d)"
  using assms
  by (simp add: updateCampaignAnalytics_def save_def Let_def pre_save_calc_ctr
        accepted_doc_def reply_for_def)

lemma update_fails:
  assumes "findById d cid = Some c" "\<not> js_lt x (Finite 0)" "\<not> js_lt y (Finite 0)"
    and "\<not> js_gt (js_add (js_or_zero (clicks (analytics c))) y)
                  (js_add (js_or_zero (impressions (analytics c))) x)"
    and "has_NaN (analytics (accepted_doc c x y))"
  shows "updateCampaignAnalytics d (Object_id cid) (JNumber x) (JNumber y)
           = (Rejected 500 ''Error updating campaign analytics'', d)"
  using assms
  by (simp add: updateCampaignAnalytics_def save_def Let_def accepted_doc_def)

lemma update_replied:
  assumes "updateCampaignAnalytics d rid iv cv = (Replied s r, d')"
  shows "\<exists>cid x y c. rid = Object_id cid \<and> iv = JNumber x \<and> cv = JNumber y
            \<and> findById d cid = Some c
            \<and> \<not> js_lt x (Finite 0) \<and> \<not> js_lt y (Finite 0)
            \<and> \<not> js_gt (js_add (js_or_zero (clicks (analytics c))) y)
                  (js_add (js_or_zero (impressions (analytics c))) x)
            \<and> \<not> has_NaN (analytics (accepted_doc c x y))
            \<and> s = 200 \<and> r = reply_for (accepted_doc c x y)
            \<and> d' = write_doc cid (accepted_doc c x y) d"
  using assms
  by (auto simp add: updateCampaignAnalytics_def save_def Let_def pre_save_calc_ctr
        accepted_doc_def reply_for_def
      split: jsval.splits if_splits option.splits id_param.splits)

text \<open>Evaluating \<open>nat_digits\<close> and \<open>toFixed2\<close> on given numbers.\<close>

lemma nat_digits_one: "n < 10 \<Longrightarrow> nat_digits n = [digit_char n]"
  by (simp add: nat_digits.simps [of n])

lemma nat_digits_more:
  "\<not> n < 10 \<Longrightarrow> nat_digits n = nat_digits (n div 10) @ [digit_char (n mod 10)]"
  by (simp add: nat_digits.simps [of n])

lemma toFixed2_nonneg:
  assumes "0 \<le> q" "q < 10 ^ 21"
    and "of_int m \<le> q * 100 + 1 / 2" "q * 100 + 1 / 2 < of_int m + 1"
  shows "toFixed2 (Finite q)
           = Some (nat_digits (nat m div 100) @ ''.''
                   @ [digit_char (nat m div 10 mod 10), digit_char (nat m mod 10)])"
proof -
  have "\<lfloor>q * 100 + 1 / 2\<rfloor> = m"
    using assms(3,4) by (rule floor_unique)
  with assms(1,2) show ?thesis
    by (simp add: toFixed2_def Let_def)
qed

lemma toFixed2_0: "toFixed2 (Finite 0) = Some ''0.00''"
  by (subst toFixed2_nonneg [where m = 0]) (simp_all add: nat_digits_one digit_char_def)

lemma toFixed2_5: "toFixed2 (Finite 5) = Some ''5.00''"
  by (subst toFixed2_nonneg [where m = 500]) (simp_all add: nat_digits_one digit_char_def)

lemma toFixed2_25: "toFixed2 (Finite 25) = Some ''25.00''"
  by (subst toFixed2_nonneg [where m = 2500])
     (simp_all add: nat_digits_one nat_digits_more digit_char_def)

lemma toFixed2_50: "toFixed2 (Finite 50) = Some ''50.00''"
  by (subst toFixed2_nonneg [where m = 5000])
     (simp_all add: nat_digits_one nat_digits_more digit_char_def)

text \<open>The shape of a \<open>toFixed2\<close> answer.\<close>

lemma is_digit_digit_char: "k < 10 \<Longrightarrow> is_digit (digit_char k)"
proof -
  assume "k < 10"
  then have "k \<in> {0,1,2,3,4,5,6,7,8,9}" by auto
  then show ?thesis
    by (auto simp: is_digit_def digit_char_def)
qed

lemma nat_digits_digits: "nat_digits n \<noteq> [] \<and> list_all is_digit (nat_digits n)"
proof (induction n rule: nat_digits.induct)
  case (1 n)
  show ?case
  proof (cases "n < 10")
    case True
    then show ?thesis by (simp add: nat_digits.simps [of n] is_digit_digit_char)
  next
    case False
    with 1 have "nat_digits (n div 10) \<noteq> [] \<and> list_all is_digit (nat_digits (n div 10))"
      by simp
    moreover have "is_digit (digit_char (n mod 10))"
      by (simp add: is_digit_digit_char)
    ultimately show ?thesis
      using False by (simp add: nat_digits.simps [of n])
  qed
qed

lemma two_decimals_shape:
  assumes "ds \<noteq> []" "list_all is_digit ds" "is_digit a" "is_digit b"
    and "sign = [] \<or> sign = ''-''"
  shows "two_decimals (sign @ ds @ ''.'' @ [a, b])"
proof -
  from assms(1) obtain h tl where ds: "ds = h # tl" by (cases ds) auto
  with assms(2) have "is_digit h" by simp
  then have h: "h \<noteq> CHR ''-''" by (auto simp: is_digit_def)
  have main: "(let t = ds @ ''.'' @ [a, b]; n = length t
      in 4 \<le> n \<and> list_all is_digit (take (n - 3) t) \<and> t ! (n - 3) = CHR ''.''
         \<and> is_digit (t ! (n - 2)) \<and> is_digit (t ! (n - 1)))"
    using assms by (simp add: Let_def nth_append ds)
  from assms(5) show ?thesis
  proof
    assume "sign = []"
    with main h show ?thesis by (simp add: two_decimals_def ds)
  next
    assume "sign = ''-''"
    with main show ?thesis by (simp add: two_decimals_def)
  qed
qed

lemma toFixed2_two_decimals:
  assumes "\<bar>q\<bar> < 10 ^ 21"
  shows "\<exists>str. toFixed2 (Finite q) = Some str \<and> two_decimals str"
proof -
  define n where "n = nat \<lfloor>\<bar>q\<bar> * 100 + 1 / 2\<rfloor>"
  have "two_decimals ((if q < 0 then ''-'' else '''') @ nat_digits (n div 100) @ ''.''
          @ [digit_char (n div 10 mod 10), digit_char (n mod 10)])"
    by (rule two_decimals_shape) (simp_all add: nat_digits_digits is_digit_digit_char)
  with assms show ?thesis
    by (simp add: toFixed2_def Let_def n_def)
qed

lemma to_double_half: "to_double (1 / 2) = Finite (1 / 2)"
  by (subst to_double_exact [where e = "- 1" and n = 4503599627370496]) simp_all

lemma to_double_14_150:
  "to_double (14 / 150) = Finite (6725375443539941 / 72057594037927936)"
  by (subst to_double_pos_near [where e = "- 4" and n = 6725375443539941]) simp_all

lemma to_double_ctr_14_150:
  "to_double (6725375443539941 / 72057594037927936 * 100)
     = Finite (5254199565265579 / 562949953421312)"
  by (subst to_double_pos_near [where e = 3 and n = 5254199565265579]) simp_all

lemma calc_ctr_150_14:
  "calc_ctr (Finite 150) (Finite 14) = Finite (5254199565265579 / 562949953421312)"
proof -
  have "js_div (Finite 14) (Finite 150) = Finite (6725375443539941 / 72057594037927936)"
    using to_double_14_150 by simp
  then show ?thesis
    using to_double_ctr_14_150 by (simp add: calc_ctr_def js_gt_def)
qed

lemma toFixed2_ctr_14_150:
  "toFixed2 (Finite (5254199565265579 / 562949953421312)) = Some ''9.33''"
  by (subst toFixed2_nonneg [where m = 933]) (simp_all add: nat_digits_one digit_char_def)

lemma rat_of_count_nonneg: "is_count x \<Longrightarrow> 0 \<le> rat_of x"
  by (auto simp: is_count_def split: jsnum.splits)

lemma is_count_Finite: "is_count x \<Longrightarrow> x = Finite (rat_of x)"
  by (auto simp: is_count_def split: jsnum.splits)

lemma counts_combine:
  assumes "is_count i" "is_count a" "is_count c"
    and "rat_of i + rat_of a + rat_of c \<le> 2 ^ 53"
  shows "js_add (js_or_zero (js_add (js_or_zero i) a)) c = js_add (js_or_zero i) (js_add a c)"
    and "js_add (js_or_zero i) a = Finite (rat_of i + rat_of a)"
    and "js_add a c = Finite (rat_of a + rat_of c)"
proof -
  note nn = rat_of_count_nonneg [OF assms(1)] rat_of_count_nonneg [OF assms(2)]
    rat_of_count_nonneg [OF assms(3)]
  have i: "js_or_zero i = i"
    using is_count_Finite [OF assms(1)] by (metis js_or_zero_Finite)
  have ia: "js_add i a = Finite (rat_of i + rat_of a)"
    using assms nn by (intro js_add_count) simp_all
  then show "js_add (js_or_zero i) a = Finite (rat_of i + rat_of a)"
    by (simp add: i)
  have cia: "is_count (Finite (rat_of i + rat_of a))"
    using assms(1,2) by (rule is_count_sum)
  have iac: "js_add (Finite (rat_of i + rat_of a)) c = Finite (rat_of i + rat_of a + rat_of c)"
    using js_add_count [OF cia assms(3)] assms(4) by simp
  show ac: "js_add a c = Finite (rat_of a + rat_of c)"
    using assms nn by (intro js_add_count) simp_all
  have cac: "is_count (Finite (rat_of a + rat_of c))"
    using assms(2,3) by (rule is_count_sum)
  have "js_add i (Finite (rat_of a + rat_of c)) = Finite (rat_of i + (rat_of a + rat_of c))"
    using js_add_count [OF assms(1) cac] assms(4) by (simp add: add.assoc)
  then show "js_add (js_or_zero (js_add (js_or_zero i) a)) c
               = js_add (js_or_zero i) (js_add a c)"
    by (simp add: i ia ac iac js_or_zero_Finite add.assoc)
qed

lemma not_negative_count: "is_count x \<Longrightarrow> \<not> js_lt x (Finite 0)"
  by (auto simp: is_count_def split: jsnum.splits)

lemma to_double_2_53_1: "to_double 9007199254740993 = Finite 9007199254740992"
  by (subst to_double_pos_tie [where e = 53 and n = 4503599627370496]) simp_all

lemma to_double_2_53_2: "to_double 9007199254740994 = Finite 9007199254740994"
  by (subst to_double_exact [where e = 53 and n = 4503599627370497]) simp_all

lemma to_double_quarter: "to_double (1 / 4) = Finite (1 / 4)"
  by (subst to_double_exact [where e = "- 2" and n = 4503599627370496]) simp_all

lemma to_double_nonneg:
  assumes "0 \<le> q"
  shows "to_double q = PosInfinity \<or> (\<exists>r. 0 \<le> r \<and> to_double q = Finite r)"
proof -
  have "0 \<le> \<bar>q\<bar> / 2 powi (double_exponent \<bar>q\<bar> - 52)"
    by simp
  from round_half_even_bound [OF this]
  have "0 \<le> of_int (round_half_even (\<bar>q\<bar> / 2 powi (double_exponent \<bar>q\<bar> - 52)))
              * (2::rat) powi (double_exponent \<bar>q\<bar> - 52)"
    by simp
  with assms show ?thesis
    by (simp add: to_double_def Let_def)
qed

lemma accepted_ctr_small:
  assumes k0: "\<not> js_lt (clicks (analytics c)) (Finite 0)" and y0: "\<not> js_lt y (Finite 0)"
    and ok: "\<not> js_gt (js_add (js_or_zero (clicks (analytics c))) y)
                  (js_add (js_or_zero (impressions (analytics c))) x)"
    and nn: "\<not> has_NaN (analytics (accepted_doc c x y))"
  shows "\<exists>q. ctr (analytics (accepted_doc c x y)) = Finite q \<and> \<bar>q\<bar> < 10 ^ 21"
proof -
  define K where "K = js_add (js_or_zero (clicks (analytics c))) y"
  define I where "I = js_add (js_or_zero (impressions (analytics c))) x"
  have ctr: "ctr (analytics (accepted_doc c x y)) = calc_ctr I K"
    by (simp add: accepted_doc_def Let_def K_def I_def)
  from nn have notnan: "I \<noteq> NaN" "K \<noteq> NaN" "calc_ctr I K \<noteq> NaN"
    by (simp_all add: has_NaN_def accepted_doc_def Let_def K_def I_def)
  have Kshape: "K = PosInfinity \<or> (\<exists>kq. 0 \<le> kq \<and> K = Finite kq)"
  proof -
    from k0 have a: "js_or_zero (clicks (analytics c)) = PosInfinity
        \<or> (\<exists>p. 0 \<le> p \<and> js_or_zero (clicks (analytics c)) = Finite p)"
      by (cases "clicks (analytics c)") (auto simp: js_or_zero_def)
    from y0 notnan(2) have b: "y = PosInfinity \<or> (\<exists>p. 0 \<le> p \<and> y = Finite p)"
      by (cases y) (auto simp: K_def js_add_NaN_right)
    show ?thesis
    proof (cases "\<exists>p pa. 0 \<le> p \<and> 0 \<le> pa
                    \<and> js_or_zero (clicks (analytics c)) = Finite p \<and> y = Finite pa")
      case True
      then obtain p pa where p: "0 \<le> p" "0 \<le> pa"
        "js_or_zero (clicks (analytics c)) = Finite p" "y = Finite pa"
        by blast
      then have "0 \<le> p + pa" by simp
      from to_double_nonneg [OF this] p show ?thesis
        by (simp add: K_def)
    next
      case False
      with a b have "K = PosInfinity"
        by (auto simp: K_def)
      then show ?thesis ..
    qed
  qed
  show ?thesis
  proof (cases "js_gt I (Finite 0)")
    case False
    then show ?thesis by (simp add: ctr calc_ctr_def)
  next
    case True
    then have c2: "calc_ctr I K = js_mul (js_div K I) (Finite 100)"
      by (simp add: calc_ctr_def)
    from True notnan(1) have Ishape: "I = PosInfinity \<or> (\<exists>iq. 0 < iq \<and> I = Finite iq)"
      by (cases I) (auto simp: js_gt_def)
    from Kshape show ?thesis
    proof
      assume Kinf: "K = PosInfinity"
      with ok have "I = PosInfinity"
        using Ishape by (auto simp: js_gt_def K_def [symmetric] I_def [symmetric])
      with Kinf c2 notnan(3) show ?thesis by simp
    next
      assume "\<exists>kq. 0 \<le> kq \<and> K = Finite kq"
      then obtain kq where kq: "0 \<le> kq" "K = Finite kq" by blast
      from Ishape show ?thesis
      proof
        assume "I = PosInfinity"
        with kq c2 show ?thesis by (simp add: ctr to_double_0)
      next
        assume "\<exists>iq. 0 < iq \<and> I = Finite iq"
        then obtain iq where iq: "0 < iq" "I = Finite iq" by blast
        from ok kq iq have le: "kq \<le> iq"
          by (simp add: js_gt_def K_def [symmetric] I_def [symmetric])
        have "0 \<le> kq / iq" "kq / iq \<le> 1"
          using kq iq le by simp_all
        then have "\<bar>kq / iq\<bar> \<le> 2 ^ 1000"
          by (simp add: abs_if order_trans [of _ 1])
        from to_double_bound [OF this] obtain r1 where
          r1: "to_double (kq / iq) = Finite r1" "\<bar>r1\<bar> \<le> 2 * \<bar>kq / iq\<bar>"
          by blast
        from r1(2) \<open>0 \<le> kq / iq\<close> \<open>kq / iq \<le> 1\<close> have r1b: "\<bar>r1\<bar> \<le> 2"
          by simp
        then have "\<bar>r1 * 100\<bar> \<le> 200"
          by (simp add: abs_mult)
        then have "\<bar>r1 * 100\<bar> \<le> 2 ^ 1000"
          by (rule order_trans) simp
        from to_double_bound [OF this] obtain r2 where
          r2: "to_double (r1 * 100) = Finite r2" "\<bar>r2\<bar> \<le> 2 * \<bar>r1 * 100\<bar>"
          by blast
        from r2(2) \<open>\<bar>r1 * 100\<bar> \<le> 200\<close> have "\<bar>r2\<bar> \<le> 400"
          by simp
        then have "\<bar>r2\<bar> < 10 ^ 21"
          by (rule le_less_trans) simp
        moreover have "calc_ctr I K = Finite r2"
          using c2 kq iq r1(1) r2(1) by simp
        ultimately show ?thesis
          by (simp add: ctr)
      qed
    qed
  qed
qed

lemma to_double_neg_2_100:
  "to_double (- 1267650600228229401496703205376) = Finite (- 1267650600228229401496703205376)"
  by (subst to_double_exact [where e = 100 and n = 4503599627370496]) simp_all

lemma to_double_neg_2_100_100:
  "to_double (- 126765060022822940149670320537600)
     = Finite (- 126765060022822940149670320537600)"
  by (subst to_double_exact [where e = 106 and n = 7036874417766400]) simp_all

lemma body_field_not_NaN: "body_field j \<noteq> JNumber NaN"
proof (cases j)
  case None
  then show ?thesis by simp
next
  case (Some v)
  then show ?thesis by (cases v) (simp_all add: to_double_not_NaN)
qed

lemma double_exponent_top:
  assumes "2 powi 1023 \<le> a"
  shows "double_exponent a = 1023"
  unfolding double_exponent_def
proof (rule Max_eqI)
  show "finite (insert (- 1022) {e \<in> {- 1022..1023}. (2::rat) powi e \<le> a})"
    by (rule finite_exponents)
  show "1023 \<in> insert (- 1022) {e \<in> {- 1022..1023}. (2::rat) powi e \<le> a}"
    using assms by simp
  fix y assume "y \<in> insert (- 1022) {e \<in> {- 1022..1023}. (2::rat) powi e \<le> a}"
  then show "y \<le> 1023" by auto
qed

lemma round_half_even_lower:
  assumes "of_int n \<le> x"
  shows "n \<le> round_half_even x"
proof -
  from assms have "n \<le> \<lfloor>x\<rfloor>" by (simp add: le_floor_iff)
  then show ?thesis
    by (simp add: round_half_even_def Let_def)
qed

lemma to_double_overflow:
  assumes "2 ^ 1024 \<le> q"
  shows "to_double q = PosInfinity"
proof -
  define u :: rat where "u = 2 powi (1023 - 52)"
  have u: "0 < u" by (simp add: u_def)
  have top: "(2::rat) ^ 1024 = of_int (2 ^ 53) * u"
    by (simp add: u_def)
  have "(0::rat) < 2 ^ 1024" by simp
  then have q0: "0 < q" using assms by (rule less_le_trans)
  then have aq: "\<bar>q\<bar> = q" by simp
  have "(2::rat) powi 1023 \<le> 2 ^ 1024" by simp
  then have "2 powi 1023 \<le> q" using assms by (rule order_trans)
  then have x: "double_exponent q = 1023"
    by (rule double_exponent_top)
  from assms have "of_int (2 ^ 53) * u \<le> q" by (simp only: top)
  with u have "of_int (2 ^ 53) \<le> q / u" by (simp add: pos_le_divide_eq)
  from round_half_even_lower [OF this]
  have "(of_int (2 ^ 53) :: rat) \<le> of_int (round_half_even (q / u))"
    by (simp only: of_int_le_iff)
  with u have "of_int (2 ^ 53) * u \<le> of_int (round_half_even (q / u)) * u"
    by (intro mult_right_mono) simp_all
  then have big: "2 ^ 1024 \<le> of_int (round_half_even (q / u)) * u"
    by (simp only: top)
  from q0 have nneg: "\<not> q < 0" by simp
  show ?thesis
    unfolding to_double_def Let_def aq x u_def [symmetric]
    by (simp only: big nneg if_True if_False)
qed

text \<open>A JSON literal of \<open>2^1024\<close> or more, such as \<open>1e999\<close>, parses to \<open>Infinity\<close>.\<close>

lemma body_field_overflow:
  "2 ^ 1024 \<le> q \<Longrightarrow> body_field (Some (JsonNumber q)) = JNumber PosInfinity"
  by (simp add: to_double_overflow)

lemma sum_counts_nonneg:
  assumes "\<forall>kc \<in> set docs. is_count (f kc)"
  shows "0 \<le> sum_list (map (\<lambda>kc. rat_of (f kc)) docs)"
  using assms by (induction docs) (simp_all add: rat_of_count_nonneg)

lemma foldl_js_add_counts:
  assumes "\<forall>kc \<in> set docs. is_count (f kc)" "is_count (Finite a)"
    and "a + sum_list (map (\<lambda>kc. rat_of (f kc)) docs) \<le> 2 ^ 53"
  shows "foldl (\<lambda>sum kc. js_add sum (f kc)) (Finite a) docs
           = Finite (a + sum_list (map (\<lambda>kc. rat_of (f kc)) docs))"
  using assms
proof (induction docs arbitrary: a)
  case Nil
  then show ?case by simp
next
  case (Cons kc docs)
  from Cons.prems(1) have rest: "\<forall>kc \<in> set docs. is_count (f kc)" and here: "is_count (f kc)"
    by simp_all
  have "0 \<le> sum_list (map (\<lambda>kc. rat_of (f kc)) docs)"
    using rest by (rule sum_counts_nonneg)
  with Cons.prems(3) have "rat_of (Finite a) + rat_of (f kc) \<le> 2 ^ 53"
    by simp
  from js_add_count [OF Cons.prems(2) here this]
  have step: "js_add (Finite a) (f kc) = Finite (a + rat_of (f kc))"
    by simp
  have cnt: "is_count (Finite (a + rat_of (f kc)))"
    using is_count_sum [OF Cons.prems(2) here] by simp
  from Cons.prems(3)
  have "a + rat_of (f kc) + sum_list (map (\<lambda>kc. rat_of (f kc)) docs) \<le> 2 ^ 53"
    by (simp add: add.assoc)
  from Cons.IH [OF rest cnt this] step show ?case
    by (simp add: add.assoc)
qed

lemma to_double_20th:
  "to_double (1 / 20) = Finite (3602879701896397 / 72057594037927936)"
  by (subst to_double_pos_near [where e = "- 5" and n = 7205759403792794]) simp_all

lemma to_double_20th_100:
  "to_double (3602879701896397 / 72057594037927936 * 100) = Finite 5"
  by (subst to_double_pos_near [where e = 2 and n = 5629499534213120]) simp_all

lemma overallCTR_two_campaigns:
  "overallCTR_of two_campaigns = Finite 5"
proof -
  have i: "totalImpressions_of two_campaigns = Finite 1000"
    by (simp add: totalImpressions_of_def two_campaigns_def sample_campaign_def
          to_double_numeral)
  have k: "totalClicks_of two_campaigns = Finite 50"
    by (simp add: totalClicks_of_def two_campaigns_def sample_campaign_def to_double_numeral)
  have "js_div (Finite 50) (Finite 1000) = Finite (3602879701896397 / 72057594037927936)"
    using to_double_20th by simp
  then show ?thesis
    using to_double_20th_100 by (simp add: overallCTR_of_def i k js_gt_def)
qed

text \<open>
  What the two writers of \<open>ctr\<close> do: the hook recomputes it under its guard and leaves
  the document alone otherwise; an accepted analytics update writes a sub-document that
  satisfies the invariant.
\<close>

lemma pre_save_positive:
  "js_gt (impressions (analytics c)) (Finite 0) \<Longrightarrow>
     ctr (analytics (pre_save c))
       = js_mul (js_div (clicks (analytics c)) (impressions (analytics c))) (Finite 100)"
  by (simp add: pre_save_def)

lemma pre_save_not_positive:
  "\<not> js_gt (impressions (analytics c)) (Finite 0) \<Longrightarrow> pre_save c = c"
  by (simp add: pre_save_def)

lemma accepted_update_establishes_invariant:
  assumes "updateCampaignAnalytics d (Object_id cid) iv cv = (Replied s r, d')"
    and "findById d' cid = Some c'"
  shows "analytics_invariant (analytics c')"
proof -
  from update_replied [OF assms(1)] obtain x y c where
    c: "findById d cid = Some c"
    and ok: "\<not> js_gt (js_add (js_or_zero (clicks (analytics c))) y)
                  (js_add (js_or_zero (impressions (analytics c))) x)"
    and nn: "\<not> has_NaN (analytics (accepted_doc c x y))"
    and d': "d' = write_doc cid (accepted_doc c x y) d"
    by auto
  from assms(2) findById_write_doc [OF c, of "accepted_doc c x y"] d'
  have "c' = accepted_doc c x y"
    by simp
  with ok nn show ?thesis
    by (simp add: analytics_invariant_def accepted_doc_def Let_def js_le_def js_gt_def
          has_NaN_def)
qed

section \<open>The claims\<close>

text \<open>
  C1. The claim asks every operation that writes the analytics field to keep clicks at most
  impressions and \<open>ctr\<close> equal to the value derived from them. \<open>updateCampaignDetails\<close>
  writes the body's analytics as given: from a stored campaign that satisfies the invariant
  (10 impressions, 5 clicks, \<open>ctr\<close> 50) the body's analytics (1, 5, 77) are stored, with
  more clicks than impressions and a \<open>ctr\<close> that is not the derived 500.
\<close>

theorem details_update_breaks_invariant:
  "analytics_invariant (analytics (sample_campaign (Finite 10) (Finite 5) (Finite 50)))
   \<and> updateCampaignDetails sample_db (Object_id ''c1'')
        (analytics_only_update \<lparr>impressions = Finite 1, clicks = Finite 5, ctr = Finite 77\<rparr>)
      = (Replied 200
           \<lparr>details_message = ''Campaign details updated successfully'',
            details_campaign = sample_campaign (Finite 1) (Finite 5) (Finite 77)\<rparr>,
         [(''c1'', sample_campaign (Finite 1) (Finite 5) (Finite 77))])
   \<and> \<not> js_le (Finite 5) (Finite 1)
   \<and> calc_ctr (Finite 1) (Finite 5) = Finite 500
   \<and> \<not> analytics_invariant (analytics (sample_campaign (Finite 1) (Finite 5) (Finite 77)))"
  by (simp add: analytics_invariant_def sample_campaign_def sample_db_def js_le_def
        calc_ctr_def js_gt_def updateCampaignDetails_def apply_update_def or_keep_def
        analytics_only_update_def update_castable_def has_NaN_def Let_def
        to_double_half to_double_numeral)



text \<open>
  C3. The handler checks in this order. An increment that is not of type number is
  refused first (status 400, "must be numbers": the spec's InvalidInputError), whatever
  the other increment, the id and the store are. Two numbers of which one is negative are
  refused next (status 400, "cannot be negative": InvalidInputError again), before the
  campaign is read, so whatever the sums would be. For two numbers that are not negative
  and a stored campaign whose counters are numbers other than NaN, the new counters are
  the stored ones plus the increments, and the update is refused with "Clicks cannot be
  greater than impressions" (the spec's InvariantViolationError) exactly when the new
  clicks exceed the new impressions. Otherwise it answers with the new counters, unless
  one of the three new numbers is NaN: then the save fails and the answer is 500.
\<close>

theorem validation_order:
  "(\<not> typeof_number iv \<or> \<not> typeof_number cv \<longrightarrow>
      fst (updateCampaignAnalytics d rid iv cv)
        = Rejected 400 ''Impressions and clicks must be numbers'')
   \<and> (js_lt x (Finite 0) \<or> js_lt y (Finite 0) \<longrightarrow>
      fst (updateCampaignAnalytics d rid (JNumber x) (JNumber y))
        = Rejected 400 ''Impressions and clicks cannot be negative'')
   \<and> (\<not> js_lt x (Finite 0) \<and> \<not> js_lt y (Finite 0) \<and> findById d cid = Some c
       \<and> impressions (analytics c) \<noteq> NaN \<and> clicks (analytics c) \<noteq> NaN \<longrightarrow>
      (let newImpressions = js_add (impressions (analytics c)) x;
           newClicks = js_add (clicks (analytics c)) y
       in (fst (updateCampaignAnalytics d (Object_id cid) (JNumber x) (JNumber y))
             = Rejected 400 ''Clicks cannot be greater than impressions''
           \<longleftrightarrow> js_gt newClicks newImpressions)
          \<and> (\<not> js_gt newClicks newImpressions \<longrightarrow>
               (if newImpressions = NaN \<or> newClicks = NaN
                   \<or> calc_ctr newImpressions newClicks = NaN
                then fst (updateCampaignAnalytics d (Object_id cid) (JNumber x) (JNumber y))
                       = Rejected 500 ''Error updating campaign analytics''
                else (\<exists>r. fst (updateCampaignAnalytics d (Object_id cid) (JNumber x) (JNumber y))
                            = Replied 200 r
                         \<and> json_impressions (reply_analytics r) = newImpressions
                         \<and> json_clicks (reply_analytics r) = newClicks)))))"
proof (intro conjI impI)
  assume "\<not> typeof_number iv \<or> \<not> typeof_number cv"
  then show "fst (updateCampaignAnalytics d rid iv cv)
        = Rejected 400 ''Impressions and clicks must be numbers''"
    by (cases iv; cases cv) (auto simp: updateCampaignAnalytics_def)
next
  assume "js_lt x (Finite 0) \<or> js_lt y (Finite 0)"
  then show "fst (updateCampaignAnalytics d rid (JNumber x) (JNumber y))
        = Rejected 400 ''Impressions and clicks cannot be negative''"
    by (auto simp: updateCampaignAnalytics_def)
next
  assume h: "\<not> js_lt x (Finite 0) \<and> \<not> js_lt y (Finite 0) \<and> findById d cid = Some c
       \<and> impressions (analytics c) \<noteq> NaN \<and> clicks (analytics c) \<noteq> NaN"
  then have oz: "js_or_zero (impressions (analytics c)) = impressions (analytics c)"
      "js_or_zero (clicks (analytics c)) = clicks (analytics c)"
    by (simp_all add: js_or_zero_id)
  let ?i = "js_add (impressions (analytics c)) x"
  let ?k = "js_add (clicks (analytics c)) y"
  have doc: "analytics (accepted_doc c x y)
               = \<lparr>impressions = ?i, clicks = ?k, ctr = calc_ctr ?i ?k\<rparr>"
    by (simp add: accepted_doc_def Let_def oz)
  have main: "(fst (updateCampaignAnalytics d (Object_id cid) (JNumber x) (JNumber y))
             = Rejected 400 ''Clicks cannot be greater than impressions''
           \<longleftrightarrow> js_gt ?k ?i)
          \<and> (\<not> js_gt ?k ?i \<longrightarrow>
               (if ?i = NaN \<or> ?k = NaN \<or> calc_ctr ?i ?k = NaN
                then fst (updateCampaignAnalytics d (Object_id cid) (JNumber x) (JNumber y))
                       = Rejected 500 ''Error updating campaign analytics''
                else (\<exists>r. fst (updateCampaignAnalytics d (Object_id cid) (JNumber x) (JNumber y))
                            = Replied 200 r
                         \<and> json_impressions (reply_analytics r) = ?i
                         \<and> json_clicks (reply_analytics r) = ?k)))"
  proof (cases "js_gt ?k ?i")
    case True
    with h oz show ?thesis
      by (simp add: updateCampaignAnalytics_def Let_def)
  next
    case False
    show ?thesis
    proof (cases "has_NaN (analytics (accepted_doc c x y))")
      case True
      with h oz False have "updateCampaignAnalytics d (Object_id cid) (JNumber x) (JNumber y)
           = (Rejected 500 ''Error updating campaign analytics'', d)"
        by (intro update_fails) simp_all
      with False True show ?thesis
        by (simp add: doc has_NaN_def)
    next
      case ok: False
      with h oz False have "updateCampaignAnalytics d (Object_id cid) (JNumber x) (JNumber y)
           = (Replied 200 (reply_for (accepted_doc c x y)),
              write_doc cid (accepted_doc c x y) d)"
        by (intro update_accepts) simp_all
      with False ok show ?thesis
        by (simp add: doc has_NaN_def reply_for_def)
    qed
  qed
  show "let newImpressions = js_add (impressions (analytics c)) x;
           newClicks = js_add (clicks (analytics c)) y
       in (fst (updateCampaignAnalytics d (Object_id cid) (JNumber x) (JNumber y))
             = Rejected 400 ''Clicks cannot be greater than impressions''
           \<longleftrightarrow> js_gt newClicks newImpressions)
          \<and> (\<not> js_gt newClicks newImpressions \<longrightarrow>
               (if newImpressions = NaN \<or> newClicks = NaN
                   \<or> calc_ctr newImpressions newClicks = NaN
                then fst (updateCampaignAnalytics d (Object_id cid) (JNumber x) (JNumber y))
                       = Rejected 500 ''Error updating campaign analytics''
                else (\<exists>r. fst (updateCampaignAnalytics d (Object_id cid) (JNumber x) (JNumber y))
                            = Replied 200 r
                         \<and> json_impressions (reply_analytics r) = newImpressions
                         \<and> json_clicks (reply_analytics r) = newClicks)))"
    unfolding Let_def by (rule main)
qed

theorem validation_order_witness:
  "fst (updateCampaignAnalytics sample_db (Object_id ''c1'') (JString ''7'')
          (JNumber (Finite (- 1))))
     = Rejected 400 ''Impressions and clicks must be numbers''
   \<and> fst (updateCampaignAnalytics sample_db (Object_id ''c1'') (JNumber (Finite (- 1)))
            (JNumber (Finite 0)))
     = Rejected 400 ''Impressions and clicks cannot be negative''
   \<and> fst (updateCampaignAnalytics sample_db (Object_id ''c1'') (JNumber (Finite 0))
            (JNumber (Finite 20)))
     = Rejected 400 ''Clicks cannot be greater than impressions''"
proof -
  have f: "findById sample_db ''c1'' = Some (sample_campaign (Finite 10) (Finite 5) (Finite 50))"
    by (simp add: sample_db_def)
  have a: "fst (updateCampaignAnalytics sample_db (Object_id ''c1'') (JString ''7'')
                  (JNumber (Finite (- 1))))
     = Rejected 400 ''Impressions and clicks must be numbers''"
    using validation_order [where iv = "JString ''7''" and cv = "JNumber (Finite (- 1))"
        and d = sample_db and rid = "Object_id ''c1''"]
    by simp
  have b: "fst (updateCampaignAnalytics sample_db (Object_id ''c1'') (JNumber (Finite (- 1)))
                  (JNumber (Finite 0)))
     = Rejected 400 ''Impressions and clicks cannot be negative''"
    using validation_order [where x = "Finite (- 1)" and y = "Finite 0"
        and d = sample_db and rid = "Object_id ''c1''"]
    by simp
  have c: "fst (updateCampaignAnalytics sample_db (Object_id ''c1'') (JNumber (Finite 0))
                  (JNumber (Finite 20)))
     = Rejected 400 ''Clicks cannot be greater than impressions''"
    using validation_order [where x = "Finite 0" and y = "Finite 20"
        and d = sample_db and cid = "''c1''"
        and c = "sample_campaign (Finite 10) (Finite 5) (Finite 50)"] f
    by (simp add: sample_campaign_def js_gt_def Let_def to_double_numeral)
  from a b c show ?thesis by simp
qed

text \<open>
  C4. Whatever the stored campaigns and whatever the request, an analytics update that is
  refused (increments that are not numbers, a negative increment, an unknown campaign,
  clicks that would exceed impressions) or that fails (status 500) returns the store
  exactly as it found it: no counter and no \<open>ctr\<close> is written.
\<close>

theorem rejected_update_leaves_store:
  assumes "fst (updateCampaignAnalytics d rid iv cv) = Rejected s m"
  shows "snd (updateCampaignAnalytics d rid iv cv) = d"
  using assms
  by (auto simp add: updateCampaignAnalytics_def save_def Let_def
      split: jsval.splits if_splits option.splits prod.splits id_param.splits)

theorem rejected_update_leaves_store_witness:
  "fst (updateCampaignAnalytics sample_db (Object_id ''c1'') (JNumber (Finite 0))
          (JNumber (Finite 20)))
     = Rejected 400 ''Clicks cannot be greater than impressions''
   \<and> snd (updateCampaignAnalytics sample_db (Object_id ''c1'') (JNumber (Finite 0))
            (JNumber (Finite 20)))
     = sample_db"
proof -
  have r: "fst (updateCampaignAnalytics sample_db (Object_id ''c1'') (JNumber (Finite 0))
                  (JNumber (Finite 20)))
             = Rejected 400 ''Clicks cannot be greater than impressions''"
    by (simp add: updateCampaignAnalytics_def sample_db_def sample_campaign_def js_or_zero_def
          js_gt_def Let_def to_double_numeral)
  from rejected_update_leaves_store [OF r] r show ?thesis
    by simp
qed

text \<open>
  C5, as stated, fails where a sum is rounded. A campaign that has reached \<open>2^53\<close>
  impressions (one accepted update from 0) accepts the increment (1, 0) twice and stays at
  \<open>2^53\<close> both times, because \<open>2^53 + 1\<close> is not a double and rounds back; the single
  update with the summed increment (2, 0) ends at \<open>2^53 + 2\<close>.
\<close>

theorem rounding_breaks_combination:
  "updateCampaignAnalytics [(''c1'', sample_campaign (Finite 0) (Finite 0) (Finite 0))]
       (Object_id ''c1'') (JNumber (Finite 9007199254740992)) (JNumber (Finite 0))
     = (Replied 200 (reply_for (sample_campaign (Finite 9007199254740992) (Finite 0) (Finite 0))),
        [(''c1'', sample_campaign (Finite 9007199254740992) (Finite 0) (Finite 0))])
   \<and> updateCampaignAnalytics
        [(''c1'', sample_campaign (Finite 9007199254740992) (Finite 0) (Finite 0))]
        (Object_id ''c1'') (JNumber (Finite 1)) (JNumber (Finite 0))
     = (Replied 200 (reply_for (sample_campaign (Finite 9007199254740992) (Finite 0) (Finite 0))),
        [(''c1'', sample_campaign (Finite 9007199254740992) (Finite 0) (Finite 0))])
   \<and> updateCampaignAnalytics
        [(''c1'', sample_campaign (Finite 9007199254740992) (Finite 0) (Finite 0))]
        (Object_id ''c1'') (JNumber (js_add (Finite 1) (Finite 1)))
        (JNumber (js_add (Finite 0) (Finite 0)))
     = (Replied 200 (reply_for (sample_campaign (Finite 9007199254740994) (Finite 0) (Finite 0))),
        [(''c1'', sample_campaign (Finite 9007199254740994) (Finite 0) (Finite 0))])
   \<and> analytics (sample_campaign (Finite 9007199254740992) (Finite 0) (Finite 0))
       \<noteq> analytics (sample_campaign (Finite 9007199254740994) (Finite 0) (Finite 0))"
  by (simp add: updateCampaignAnalytics_def sample_campaign_def js_or_zero_def
        js_gt_def calc_ctr_def save_def has_NaN_def pre_save_def reply_for_def Let_def
        to_double_0 to_double_numeral to_double_2_53_1 to_double_2_53_2)

text \<open>
  C5, amended. Let the stored counters and the four increments be counts (non-negative
  integers), with stored impressions plus both impression increments at most \<open>2^53\<close> and
  the same for clicks. If the update with (a, b) and then the update with (c, e) are both
  accepted, the single update with (a + c, b + e) on the starting store is accepted too,
  with the same answer and the same final store (impressions, clicks and \<open>ctr\<close>) as the
  second of the two.
\<close>

theorem sequential_increments_combine:
  assumes first: "updateCampaignAnalytics d (Object_id cid) (JNumber a) (JNumber b)
                    = (Replied s1 r1, d1)"
    and second: "updateCampaignAnalytics d1 (Object_id cid) (JNumber c) (JNumber e)
                    = (Replied s2 r2, d2)"
    and start: "findById d cid = Some c0"
    and counts: "is_count (impressions (analytics c0))" "is_count (clicks (analytics c0))"
      "is_count a" "is_count b" "is_count c" "is_count e"
    and bounds: "rat_of (impressions (analytics c0)) + rat_of a + rat_of c \<le> 2 ^ 53"
      "rat_of (clicks (analytics c0)) + rat_of b + rat_of e \<le> 2 ^ 53"
  shows "updateCampaignAnalytics d (Object_id cid) (JNumber (js_add a c)) (JNumber (js_add b e))
           = (Replied s2 r2, d2)"
proof -
  from update_replied [OF first] start have
    d1: "d1 = write_doc cid (accepted_doc c0 a b) d"
    by auto
  have c1: "findById d1 cid = Some (accepted_doc c0 a b)"
    unfolding d1 using start by (rule findById_write_doc)
  from update_replied [OF second] c1 have
    ok: "\<not> js_gt (js_add (js_or_zero (clicks (analytics (accepted_doc c0 a b)))) e)
                  (js_add (js_or_zero (impressions (analytics (accepted_doc c0 a b)))) c)"
    and nn: "\<not> has_NaN (analytics (accepted_doc (accepted_doc c0 a b) c e))"
    and s2: "s2 = 200" and r2: "r2 = reply_for (accepted_doc (accepted_doc c0 a b) c e)"
    and d2: "d2 = write_doc cid (accepted_doc (accepted_doc c0 a b) c e) d1"
    by auto
  note i = counts_combine [OF counts(1) counts(3) counts(5) bounds(1)]
  note k = counts_combine [OF counts(2) counts(4) counts(6) bounds(2)]
  have both: "accepted_doc (accepted_doc c0 a b) c e
                = accepted_doc c0 (js_add a c) (js_add b e)"
    by (simp add: accepted_doc_def Let_def i(1) k(1))
  have ok': "\<not> js_gt (js_add (js_or_zero (clicks (analytics c0))) (js_add b e))
                  (js_add (js_or_zero (impressions (analytics c0))) (js_add a c))"
    using ok by (simp add: accepted_doc_def Let_def i(1) k(1))
  have pos: "\<not> js_lt (js_add a c) (Finite 0)" "\<not> js_lt (js_add b e) (Finite 0)"
    using rat_of_count_nonneg [OF counts(3)] rat_of_count_nonneg [OF counts(4)]
      rat_of_count_nonneg [OF counts(5)] rat_of_count_nonneg [OF counts(6)]
    by (simp_all add: i(3) k(3))
  have "updateCampaignAnalytics d (Object_id cid) (JNumber (js_add a c)) (JNumber (js_add b e))
          = (Replied 200 (reply_for (accepted_doc c0 (js_add a c) (js_add b e))),
             write_doc cid (accepted_doc c0 (js_add a c) (js_add b e)) d)"
    using start pos ok' nn [unfolded both] by (rule update_accepts)
  then show ?thesis
    by (simp add: s2 r2 d2 d1 both write_doc_twice)
qed

theorem sequential_increments_combine_witness:
  "updateCampaignAnalytics sample_db (Object_id ''c1'') (JNumber (Finite 22)) (JNumber (Finite 3))
     = (Replied 200 (reply_for (sample_campaign (Finite 32) (Finite 8) (Finite 25))),
        [(''c1'', sample_campaign (Finite 32) (Finite 8) (Finite 25))])
   \<and> updateCampaignAnalytics [(''c1'', sample_campaign (Finite 32) (Finite 8) (Finite 25))]
        (Object_id ''c1'') (JNumber (Finite 32)) (JNumber (Finite 8))
     = (Replied 200 (reply_for (sample_campaign (Finite 64) (Finite 16) (Finite 25))),
        [(''c1'', sample_campaign (Finite 64) (Finite 16) (Finite 25))])
   \<and> updateCampaignAnalytics sample_db (Object_id ''c1'')
        (JNumber (js_add (Finite 22) (Finite 32))) (JNumber (js_add (Finite 3) (Finite 8)))
     = (Replied 200 (reply_for (sample_campaign (Finite 64) (Finite 16) (Finite 25))),
        [(''c1'', sample_campaign (Finite 64) (Finite 16) (Finite 25))])"
proof -
  have one: "updateCampaignAnalytics sample_db (Object_id ''c1'') (JNumber (Finite 22))
               (JNumber (Finite 3))
     = (Replied 200 (reply_for (sample_campaign (Finite 32) (Finite 8) (Finite 25))),
        [(''c1'', sample_campaign (Finite 32) (Finite 8) (Finite 25))])"
    by (simp add: updateCampaignAnalytics_def sample_db_def sample_campaign_def js_or_zero_def
          js_gt_def calc_ctr_def save_def has_NaN_def pre_save_def reply_for_def Let_def
          to_double_numeral to_double_quarter)
  have two: "updateCampaignAnalytics [(''c1'', sample_campaign (Finite 32) (Finite 8) (Finite 25))]
        (Object_id ''c1'') (JNumber (Finite 32)) (JNumber (Finite 8))
     = (Replied 200 (reply_for (sample_campaign (Finite 64) (Finite 16) (Finite 25))),
        [(''c1'', sample_campaign (Finite 64) (Finite 16) (Finite 25))])"
    by (simp add: updateCampaignAnalytics_def sample_campaign_def js_or_zero_def
          js_gt_def calc_ctr_def save_def has_NaN_def pre_save_def reply_for_def Let_def
          to_double_numeral to_double_quarter)
  have start: "findById sample_db ''c1''
      = Some (sample_campaign (Finite 10) (Finite 5) (Finite 50))"
    by (simp add: sample_db_def)
  have counts: "is_count (impressions (analytics (sample_campaign (Finite 10) (Finite 5) (Finite 50))))"
    "is_count (clicks (analytics (sample_campaign (Finite 10) (Finite 5) (Finite 50))))"
    "is_count (Finite 22)" "is_count (Finite 3)" "is_count (Finite 32)" "is_count (Finite 8)"
    by (simp_all add: is_count_def sample_campaign_def)
  have bounds: "rat_of (impressions (analytics (sample_campaign (Finite 10) (Finite 5) (Finite 50))))
        + rat_of (Finite 22) + rat_of (Finite 32) \<le> 2 ^ 53"
    "rat_of (clicks (analytics (sample_campaign (Finite 10) (Finite 5) (Finite 50))))
        + rat_of (Finite 3) + rat_of (Finite 8) \<le> 2 ^ 53"
    by (simp_all add: sample_campaign_def)
  from sequential_increments_combine [OF one two start counts bounds] one two show ?thesis
    by simp
qed

text \<open>
  C6. For a stored campaign with 100 impressions and 10 clicks, the increment (50, 4) is
  accepted: the answer carries impressions 150, clicks 14 and the \<open>ctr\<close> string
  \<open>9.33\<close>, and the campaign is stored with those counters and the \<open>ctr\<close> number that
  the doubles give for \<open>14 / 150 * 100\<close>, which is \<open>5254199565265579 / 2^49\<close>
  (about 9.333333333333334).
\<close>

theorem example_increment_150_14:
  assumes "findById d cid = Some c"
    and "impressions (analytics c) = Finite 100" and "clicks (analytics c) = Finite 10"
  shows "\<exists>d' c'. updateCampaignAnalytics d (Object_id cid) (JNumber (Finite 50))
                    (JNumber (Finite 4))
           = (Replied 200
                \<lparr>message = ''Campaign analytics updated successfully'',
                 reply_analytics =
                   \<lparr>json_impressions = Finite 150, json_clicks = Finite 14,
                    json_ctr = Some ''9.33''\<rparr>\<rparr>,
              d')
         \<and> findById d' cid = Some c'
         \<and> analytics c'
             = \<lparr>impressions = Finite 150, clicks = Finite 14,
                ctr = Finite (5254199565265579 / 562949953421312)\<rparr>"
proof -
  have doc: "analytics (accepted_doc c (Finite 50) (Finite 4))
               = \<lparr>impressions = Finite 150, clicks = Finite 14,
                  ctr = Finite (5254199565265579 / 562949953421312)\<rparr>"
    using assms(2,3)
    by (simp add: accepted_doc_def js_or_zero_def to_double_numeral calc_ctr_150_14)
  have "updateCampaignAnalytics d (Object_id cid) (JNumber (Finite 50)) (JNumber (Finite 4))
          = (Replied 200 (reply_for (accepted_doc c (Finite 50) (Finite 4))),
             write_doc cid (accepted_doc c (Finite 50) (Finite 4)) d)"
    using assms
    by (intro update_accepts)
       (simp_all add: doc has_NaN_def js_or_zero_def js_gt_def to_double_numeral)
  moreover have "reply_for (accepted_doc c (Finite 50) (Finite 4))
      = \<lparr>message = ''Campaign analytics updated successfully'',
                 reply_analytics =
                   \<lparr>json_impressions = Finite 150, json_clicks = Finite 14,
                    json_ctr = Some ''9.33''\<rparr>\<rparr>"
    by (simp add: reply_for_def doc toFixed2_ctr_14_150)
  moreover have "findById (write_doc cid (accepted_doc c (Finite 50) (Finite 4)) d) cid
      = Some (accepted_doc c (Finite 50) (Finite 4))"
    using assms(1) by (rule findById_write_doc)
  ultimately show ?thesis using doc by simp
qed

theorem example_increment_150_14_witness:
  "\<exists>d' c'. updateCampaignAnalytics
             [(''c1'', sample_campaign (Finite 100) (Finite 10) (Finite 10))] (Object_id ''c1'')
             (JNumber (Finite 50)) (JNumber (Finite 4))
           = (Replied 200
                \<lparr>message = ''Campaign analytics updated successfully'',
                 reply_analytics =
                   \<lparr>json_impressions = Finite 150, json_clicks = Finite 14,
                    json_ctr = Some ''9.33''\<rparr>\<rparr>,
              d')
         \<and> findById d' ''c1'' = Some c'
         \<and> analytics c'
             = \<lparr>impressions = Finite 150, clicks = Finite 14,
                ctr = Finite (5254199565265579 / 562949953421312)\<rparr>"
  using example_increment_150_14
    [of "[(''c1'', sample_campaign (Finite 100) (Finite 10) (Finite 10))]" "''c1''"
        "sample_campaign (Finite 100) (Finite 10) (Finite 10)"]
  by (simp add: sample_campaign_def)

text \<open>
  C7, as stated, fails for a campaign whose stored clicks are far below zero, which
  \<open>updateCampaignDetails\<close> can store. With 1 impression and \<open>-2^100\<close> clicks stored, the
  update by (0, 0) is accepted, \<open>ctr\<close> is \<open>-2^100 * 100\<close>, and \<open>toFixed(2)\<close> of a number
  of magnitude \<open>10^21\<close> or more is in exponent notation, not in two decimals.
\<close>

theorem negative_clicks_reply_not_two_decimals:
  "updateCampaignDetails sample_db (Object_id ''c1'')
       (analytics_only_update
          \<lparr>impressions = Finite 1, clicks = Finite (- 1267650600228229401496703205376),
           ctr = Finite 0\<rparr>)
     = (Replied 200
          \<lparr>details_message = ''Campaign details updated successfully'',
           details_campaign =
             sample_campaign (Finite 1) (Finite (- 1267650600228229401496703205376)) (Finite 0)\<rparr>,
        [(''c1'', sample_campaign (Finite 1) (Finite (- 1267650600228229401496703205376))
                    (Finite 0))])
   \<and> updateCampaignAnalytics
        [(''c1'', sample_campaign (Finite 1) (Finite (- 1267650600228229401496703205376))
                    (Finite 0))]
        (Object_id ''c1'') (JNumber (Finite 0)) (JNumber (Finite 0))
     = (Replied 200
          \<lparr>message = ''Campaign analytics updated successfully'',
           reply_analytics =
             \<lparr>json_impressions = Finite 1,
              json_clicks = Finite (- 1267650600228229401496703205376),
              json_ctr = None\<rparr>\<rparr>,
        [(''c1'', sample_campaign (Finite 1) (Finite (- 1267650600228229401496703205376))
                    (Finite (- 126765060022822940149670320537600)))])
   \<and> toFixed2 (Finite (- 126765060022822940149670320537600)) = None"
  by (simp add: updateCampaignDetails_def sample_db_def apply_update_def or_keep_def
        analytics_only_update_def update_castable_def
        updateCampaignAnalytics_def sample_campaign_def js_or_zero_def
        js_gt_def calc_ctr_def save_def has_NaN_def pre_save_def Let_def
        to_double_0 to_double_1 to_double_numeral to_double_neg_2_100 to_double_neg_2_100_100
        toFixed2_def)

text \<open>
  C7, amended. Whenever the analytics update is accepted, the answer is the object with
  the success message and an \<open>analytics\<close> object of exactly three fields: impressions and
  clicks are the counters now stored for the campaign, and \<open>ctr\<close> is \<open>toFixed(2)\<close> of the
  stored \<open>ctr\<close>. That string has exactly two decimal places whenever the stored \<open>ctr\<close> is
  finite and below \<open>10^21\<close> in magnitude, and it is so whenever the clicks stored before
  the update were not negative.
\<close>

theorem reply_reports_stored_analytics:
  assumes "updateCampaignAnalytics d rid iv cv = (Replied s r, d')"
  shows "\<exists>cid c c'. rid = Object_id cid \<and> findById d cid = Some c \<and> findById d' cid = Some c'
      \<and> r = \<lparr>message = ''Campaign analytics updated successfully'',
             reply_analytics =
               \<lparr>json_impressions = impressions (analytics c'),
                json_clicks = clicks (analytics c'),
                json_ctr = toFixed2 (ctr (analytics c'))\<rparr>\<rparr>
      \<and> (\<forall>q. ctr (analytics c') = Finite q \<and> \<bar>q\<bar> < 10 ^ 21 \<longrightarrow>
            (\<exists>str. json_ctr (reply_analytics r) = Some str \<and> two_decimals str))
      \<and> (\<not> js_lt (clicks (analytics c)) (Finite 0) \<longrightarrow>
            (\<exists>str. json_ctr (reply_analytics r) = Some str \<and> two_decimals str))"
proof -
  from update_replied [OF assms] obtain cid x y c where
    rid: "rid = Object_id cid" and c: "findById d cid = Some c"
    and y0: "\<not> js_lt y (Finite 0)"
    and ok: "\<not> js_gt (js_add (js_or_zero (clicks (analytics c))) y)
                  (js_add (js_or_zero (impressions (analytics c))) x)"
    and nn: "\<not> has_NaN (analytics (accepted_doc c x y))"
    and r: "r = reply_for (accepted_doc c x y)"
    and d': "d' = write_doc cid (accepted_doc c x y) d"
    by auto
  let ?c' = "accepted_doc c x y"
  have stored: "findById d' cid = Some ?c'"
    unfolding d' using c by (rule findById_write_doc)
  have shape: "\<exists>str. json_ctr (reply_analytics r) = Some str \<and> two_decimals str"
    if "ctr (analytics ?c') = Finite q" "\<bar>q\<bar> < 10 ^ 21" for q
    using toFixed2_two_decimals [OF that(2)] that(1) by (simp add: r reply_for_def)
  have valid: "\<exists>str. json_ctr (reply_analytics r) = Some str \<and> two_decimals str"
    if "\<not> js_lt (clicks (analytics c)) (Finite 0)"
    using accepted_ctr_small [OF that y0 ok nn] shape by blast
  have "r = \<lparr>message = ''Campaign analytics updated successfully'',
             reply_analytics =
               \<lparr>json_impressions = impressions (analytics ?c'),
                json_clicks = clicks (analytics ?c'),
                json_ctr = toFixed2 (ctr (analytics ?c'))\<rparr>\<rparr>"
    by (simp add: r reply_for_def)
  with rid c stored shape valid show ?thesis
    by blast
qed

theorem reply_reports_stored_analytics_witness:
  "updateCampaignAnalytics sample_db (Object_id ''c1'') (JNumber (Finite 22)) (JNumber (Finite 3))
     = (Replied 200
          \<lparr>message = ''Campaign analytics updated successfully'',
           reply_analytics =
             \<lparr>json_impressions = Finite 32, json_clicks = Finite 8,
              json_ctr = Some ''25.00''\<rparr>\<rparr>,
        [(''c1'', sample_campaign (Finite 32) (Finite 8) (Finite 25))])
   \<and> two_decimals ''25.00''"
proof -
  have e: "updateCampaignAnalytics sample_db (Object_id ''c1'') (JNumber (Finite 22))
             (JNumber (Finite 3))
     = (Replied 200
          \<lparr>message = ''Campaign analytics updated successfully'',
           reply_analytics =
             \<lparr>json_impressions = Finite 32, json_clicks = Finite 8,
              json_ctr = Some ''25.00''\<rparr>\<rparr>,
        [(''c1'', sample_campaign (Finite 32) (Finite 8) (Finite 25))])"
    by (simp add: updateCampaignAnalytics_def sample_db_def sample_campaign_def js_or_zero_def
          js_gt_def calc_ctr_def save_def has_NaN_def pre_save_def Let_def
          to_double_numeral to_double_quarter toFixed2_25)
  from reply_reports_stored_analytics [OF e] obtain c where
    c: "findById sample_db ''c1'' = Some c"
    and shape: "\<not> js_lt (clicks (analytics c)) (Finite 0) \<longrightarrow>
            (\<exists>str. Some ''25.00'' = Some str \<and> two_decimals str)"
    by auto
  from c have "clicks (analytics c) = Finite 5"
    by (auto simp: sample_db_def sample_campaign_def)
  with shape have "\<exists>str. Some ''25.00'' = Some str \<and> two_decimals str"
    by simp
  then have "two_decimals ''25.00''"
    by simp
  with e show ?thesis
    by simp
qed

text \<open>
  C8. Every campaign that \<open>createCampaign\<close> answers with has impressions 0, clicks 0 and
  \<open>ctr\<close> 0, and it is that campaign which is added to the store.
\<close>

theorem created_campaign_has_zero_analytics:
  assumes "createCampaign d new_id upload req = (Replied s r, d')"
  shows "analytics (created_campaign r)
           = \<lparr>impressions = Finite 0, clicks = Finite 0, ctr = Finite 0\<rparr>
         \<and> d' = d @ [(new_id, created_campaign r)]"
  using assms
  by (auto simp add: createCampaign_def Campaign_create_def pre_save_def default_analytics_def
        js_gt_def Let_def
      split: option.splits if_splits)

theorem created_campaign_has_zero_analytics_witness:
  "createCampaign [] ''c7'' (Some ''https://img.example/7.png'') sample_request
     = (Replied 201
          \<lparr>create_message = ''Campaign created successfully'',
           created_campaign =
             (sample_campaign (Finite 0) (Finite 0) (Finite 0))
               \<lparr>imageUrl := ''https://img.example/7.png''\<rparr>\<rparr>,
        [(''c7'', (sample_campaign (Finite 0) (Finite 0) (Finite 0))
                    \<lparr>imageUrl := ''https://img.example/7.png''\<rparr>)])
   \<and> analytics ((sample_campaign (Finite 0) (Finite 0) (Finite 0))
                    \<lparr>imageUrl := ''https://img.example/7.png''\<rparr>)
       = \<lparr>impressions = Finite 0, clicks = Finite 0, ctr = Finite 0\<rparr>"
proof -
  have e: "createCampaign [] ''c7'' (Some ''https://img.example/7.png'') sample_request
     = (Replied 201
          \<lparr>create_message = ''Campaign created successfully'',
           created_campaign =
             (sample_campaign (Finite 0) (Finite 0) (Finite 0))
               \<lparr>imageUrl := ''https://img.example/7.png''\<rparr>\<rparr>,
        [(''c7'', (sample_campaign (Finite 0) (Finite 0) (Finite 0))
                    \<lparr>imageUrl := ''https://img.example/7.png''\<rparr>)])"
    by (simp add: createCampaign_def Campaign_create_def sample_request_def required_ok_def
          campaignType_enum_def pre_save_def default_analytics_def default_status_def
          js_gt_def sample_campaign_def Let_def)
  from created_campaign_has_zero_analytics [OF e] e show ?thesis
    by simp
qed

text \<open>
  C9, as stated, fails in its last part: with NaN for the impressions increment the
  handler passes its checks, but the save is refused, the answer is 500 and the stored
  campaign is what it was. No NaN is stored.
\<close>

theorem nan_increment_answers_500:
  "updateCampaignAnalytics sample_db (Object_id ''c1'') (JNumber NaN) (JNumber (Finite 0))
     = (Rejected 500 ''Error updating campaign analytics'', sample_db)
   \<and> findById sample_db ''c1'' = Some (sample_campaign (Finite 10) (Finite 5) (Finite 50))"
  by (simp add: updateCampaignAnalytics_def sample_db_def sample_campaign_def js_or_zero_def
        js_gt_def calc_ctr_def save_def has_NaN_def Let_def to_double_numeral)

text \<open>
  C9, amended. NaN is of type number, is not less than 0 and makes the comparison of the
  new clicks with the new impressions false, so an increment of NaN (the other increment
  a number that is not negative) passes the handler's three checks. The update is not
  written: a new counter is NaN, the save fails, the handler answers 500 and the store is
  unchanged. A parsed JSON body never holds NaN.
\<close>

theorem nan_increment_is_refused_by_save:
  assumes found: "findById d cid = Some c"
    and nan: "x = NaN \<or> y = NaN"
    and x0: "\<not> js_lt x (Finite 0)" and y0: "\<not> js_lt y (Finite 0)"
  shows "typeof_number (JNumber x) \<and> typeof_number (JNumber y)
      \<and> \<not> js_gt (js_add (js_or_zero (clicks (analytics c))) y)
                 (js_add (js_or_zero (impressions (analytics c))) x)
      \<and> updateCampaignAnalytics d (Object_id cid) (JNumber x) (JNumber y)
          = (Rejected 500 ''Error updating campaign analytics'', d)
      \<and> body_field j \<noteq> JNumber NaN"
proof -
  have ok: "\<not> js_gt (js_add (js_or_zero (clicks (analytics c))) y)
                  (js_add (js_or_zero (impressions (analytics c))) x)"
    using nan by (auto simp: js_gt_def js_add_NaN_right js_lt_NaN_right)
  have "has_NaN (analytics (accepted_doc c x y))"
    using nan by (auto simp: has_NaN_def accepted_doc_def Let_def js_add_NaN_right)
  with found x0 y0 ok
  have "updateCampaignAnalytics d (Object_id cid) (JNumber x) (JNumber y)
          = (Rejected 500 ''Error updating campaign analytics'', d)"
    by (rule update_fails)
  with ok show ?thesis
    by (simp add: body_field_not_NaN)
qed

theorem nan_increment_is_refused_by_save_witness:
  "updateCampaignAnalytics sample_db (Object_id ''c1'') (JNumber (Finite 1)) (JNumber NaN)
     = (Rejected 500 ''Error updating campaign analytics'', sample_db)
   \<and> \<not> js_gt (js_add (js_or_zero (Finite 5)) NaN) (js_add (js_or_zero (Finite 10)) (Finite 1))"
proof -
  have f: "findById sample_db ''c1'' = Some (sample_campaign (Finite 10) (Finite 5) (Finite 50))"
    by (simp add: sample_db_def)
  have h: "Finite 1 = NaN \<or> (NaN :: jsnum) = NaN" "\<not> js_lt (Finite 1) (Finite 0)"
    "\<not> js_lt NaN (Finite 0)"
    by simp_all
  from nan_increment_is_refused_by_save [OF f h] show ?thesis
    by (simp add: sample_campaign_def)
qed

text \<open>
  C10. For the campaigns of a user, the dashboard's \<open>overallCTR\<close> is \<open>toFixed(2)\<close> of the
  pooled ratio: the sum of all clicks divided by the sum of all impressions, times 100,
  when the summed impressions are greater than 0, and 0 otherwise, the sums being those
  JavaScript computes. For counts whose sums are at most \<open>2^53\<close> these are the exact
  sums. It is not the mean of the campaigns' \<open>ctr\<close> values: for campaigns with (100
  impressions, 50 clicks, \<open>ctr\<close> 50) and (900, 0, 0) the pooled ratio is 5 and the mean 25.
\<close>

theorem overallCTR_is_pooled_ratio:
  "(let docs = find_by_advertiser d userId;
        jsImpressions = js_sum (map (\<lambda>kc. impressions (analytics (snd kc))) docs);
        jsClicks = js_sum (map (\<lambda>kc. clicks (analytics (snd kc))) docs);
        sumImpressions = sum_list (map (\<lambda>kc. rat_of (impressions (analytics (snd kc)))) docs);
        sumClicks = sum_list (map (\<lambda>kc. rat_of (clicks (analytics (snd kc)))) docs)
    in (\<exists>r. getDashboardStats d userId = Replied 200 r
             \<and> overallCTR r = toFixed2 (overallCTR_of docs))
       \<and> overallCTR_of docs
           = (if js_gt jsImpressions (Finite 0)
              then js_mul (js_div jsClicks jsImpressions) (Finite 100) else Finite 0)
       \<and> ((\<forall>kc \<in> set docs. is_count (impressions (analytics (snd kc)))
                              \<and> is_count (clicks (analytics (snd kc))))
           \<and> sumImpressions \<le> 2 ^ 53 \<and> sumClicks \<le> 2 ^ 53 \<longrightarrow>
           jsImpressions = Finite sumImpressions \<and> jsClicks = Finite sumClicks
           \<and> (0 < sumImpressions \<longrightarrow>
                 overallCTR_of docs
                   = js_mul (js_div (Finite sumClicks) (Finite sumImpressions)) (Finite 100))
           \<and> (sumImpressions = 0 \<longrightarrow> overallCTR_of docs = Finite 0)))
   \<and> overallCTR_of (find_by_advertiser two_campaigns ''u1'') = Finite 5
   \<and> mean_of_ctrs (find_by_advertiser two_campaigns ''u1'') = Finite 25"
proof -
  let ?docs = "find_by_advertiser d userId"
  let ?I = "sum_list (map (\<lambda>kc. rat_of (impressions (analytics (snd kc)))) ?docs)"
  let ?K = "sum_list (map (\<lambda>kc. rat_of (clicks (analytics (snd kc)))) ?docs)"
  have ji: "js_sum (map (\<lambda>kc. impressions (analytics (snd kc))) ?docs)
              = totalImpressions_of ?docs"
    by (simp add: js_sum_def totalImpressions_of_def foldl_map)
  have jk: "js_sum (map (\<lambda>kc. clicks (analytics (snd kc))) ?docs) = totalClicks_of ?docs"
    by (simp add: js_sum_def totalClicks_of_def foldl_map)
  have reply: "\<exists>r. getDashboardStats d userId = Replied 200 r
             \<and> overallCTR r = toFixed2 (overallCTR_of ?docs)"
    by (simp add: getDashboardStats_def Let_def)
  have pooled: "overallCTR_of ?docs
           = (if js_gt (totalImpressions_of ?docs) (Finite 0)
              then js_mul (js_div (totalClicks_of ?docs) (totalImpressions_of ?docs)) (Finite 100)
              else Finite 0)"
    by (simp add: overallCTR_of_def)
  have exact: "totalImpressions_of ?docs = Finite ?I \<and> totalClicks_of ?docs = Finite ?K
           \<and> (0 < ?I \<longrightarrow>
                 overallCTR_of ?docs = js_mul (js_div (Finite ?K) (Finite ?I)) (Finite 100))
           \<and> (?I = 0 \<longrightarrow> overallCTR_of ?docs = Finite 0)"
    if h: "(\<forall>kc \<in> set ?docs. is_count (impressions (analytics (snd kc)))
                              \<and> is_count (clicks (analytics (snd kc))))
           \<and> ?I \<le> 2 ^ 53 \<and> ?K \<le> 2 ^ 53"
  proof -
    have z: "is_count (Finite 0)" by (simp add: is_count_def)
    have i: "totalImpressions_of ?docs = Finite ?I"
      unfolding totalImpressions_of_def
      using foldl_js_add_counts [of ?docs "\<lambda>kc. impressions (analytics (snd kc))" 0] h z
      by simp
    have k: "totalClicks_of ?docs = Finite ?K"
      unfolding totalClicks_of_def
      using foldl_js_add_counts [of ?docs "\<lambda>kc. clicks (analytics (snd kc))" 0] h z
      by simp
    show ?thesis
      by (simp add: i k overallCTR_of_def js_gt_def)
  qed
  have docs: "find_by_advertiser two_campaigns ''u1'' = two_campaigns"
    by (simp add: find_by_advertiser_def two_campaigns_def sample_campaign_def)
  have mean: "mean_of_ctrs two_campaigns = Finite 25"
    by (simp add: mean_of_ctrs_def two_campaigns_def sample_campaign_def to_double_numeral)
  from reply pooled exact show ?thesis
    unfolding Let_def ji jk docs
    by (simp only: overallCTR_two_campaigns mean) blast
qed

theorem overallCTR_is_pooled_ratio_witness:
  "getDashboardStats two_campaigns ''u1''
     = Replied 200
         \<lparr>activeCampaigns = 2, totalImpressions = Finite 1000, overallCTR = Some ''5.00'',
          campaigns =
            [\<lparr>summary_id = ''c1'', summary_name = ''Spring sale'', summary_type = ''BANNER'',
              summary_status = ''ACTIVE'',
              performance = \<lparr>perf_impressions = Finite 100, perf_clicks = Finite 50,
                             perf_ctr = Some ''50.00''\<rparr>\<rparr>,
             \<lparr>summary_id = ''c2'', summary_name = ''Spring sale'', summary_type = ''BANNER'',
              summary_status = ''ACTIVE'',
              performance = \<lparr>perf_impressions = Finite 900, perf_clicks = Finite 0,
                             perf_ctr = Some ''0.00''\<rparr>\<rparr>]\<rparr>
   \<and> overallCTR_of (find_by_advertiser two_campaigns ''u1'')
       = js_mul (js_div (Finite 50) (Finite 1000)) (Finite 100)"
proof -
  have docs: "find_by_advertiser two_campaigns ''u1'' = two_campaigns"
    by (simp add: find_by_advertiser_def two_campaigns_def sample_campaign_def)
  have counts: "\<forall>kc \<in> set two_campaigns. is_count (impressions (analytics (snd kc)))
                              \<and> is_count (clicks (analytics (snd kc)))"
    by (simp add: two_campaigns_def sample_campaign_def is_count_def)
  have sums: "sum_list (map (\<lambda>kc. rat_of (impressions (analytics (snd kc)))) two_campaigns) = 1000"
    "sum_list (map (\<lambda>kc. rat_of (clicks (analytics (snd kc)))) two_campaigns) = 50"
    by (simp_all add: two_campaigns_def sample_campaign_def)
  note here = overallCTR_is_pooled_ratio [of two_campaigns "''u1''", unfolded Let_def docs sums]
  have small: "(1000::rat) \<le> 2 ^ 53" "(50::rat) \<le> 2 ^ 53" "(0::rat) < 1000"
    by simp_all
  from here counts small
  have pooled: "overallCTR_of two_campaigns
                  = js_mul (js_div (Finite 50) (Finite 1000)) (Finite 100)"
    by blast
  have five: "overallCTR_of two_campaigns = Finite 5"
    by (rule overallCTR_two_campaigns)
  have e: "getDashboardStats two_campaigns ''u1''
     = Replied 200
         \<lparr>activeCampaigns = 2, totalImpressions = Finite 1000, overallCTR = Some ''5.00'',
          campaigns =
            [\<lparr>summary_id = ''c1'', summary_name = ''Spring sale'', summary_type = ''BANNER'',
              summary_status = ''ACTIVE'',
              performance = \<lparr>perf_impressions = Finite 100, perf_clicks = Finite 50,
                             perf_ctr = Some ''50.00''\<rparr>\<rparr>,
             \<lparr>summary_id = ''c2'', summary_name = ''Spring sale'', summary_type = ''BANNER'',
              summary_status = ''ACTIVE'',
              performance = \<lparr>perf_impressions = Finite 900, perf_clicks = Finite 0,
                             perf_ctr = Some ''0.00''\<rparr>\<rparr>]\<rparr>"
    by (simp add: getDashboardStats_def docs five toFixed2_5 Let_def)
       (simp add: two_campaigns_def sample_campaign_def totalImpressions_of_def
          toFixed2_0 toFixed2_50 to_double_numeral)
  from e pooled show ?thesis
    unfolding docs by (intro conjI)
qed

end
